theory Spec2Isabelle
  imports Main "HOL-Library.Word" "HOL-Library.Monad_Syntax"
begin

unbundle bit_operations_syntax

section \<open>The ST7735 driver of \<^verbatim>\<open>src/source/st7735.h\<close>\<close>

text \<open>
  The driver class \<^verbatim>\<open>ST7735Driver<width, height, Transport>\<close> owns a byte array
  \<^verbatim>\<open>buffer_[width * height * 2]\<close>, three theme colours and a transport object.
  The template parameters \<open>width\<close> and \<open>height\<close> are the first two arguments of every
  function of the model. Member names lose their trailing underscore.

  Integer types. The driver is written for the Daisy, an ARM Cortex-M7 board built with
  arm-none-eabi and newlib: \<^verbatim>\<open>int\<close> is the 32-bit signed type, \<^verbatim>\<open>unsigned int\<close> and
  \<^verbatim>\<open>size_t\<close> are 32-bit unsigned types, and \<^verbatim>\<open>uint_fast8_t\<close>, the type of every
  coordinate, is \<^verbatim>\<open>unsigned int\<close>, a 32-bit word. Arithmetic between two coordinates is
  therefore unsigned and wraps modulo \<open>2^32\<close>; the cast \<^verbatim>\<open>(int)x\<close> reads the word as two's
  complement (\<open>sint\<close>); adding an \<^verbatim>\<open>int\<close> to a coordinate converts the \<^verbatim>\<open>int\<close> to
  unsigned first. \<^verbatim>\<open>uint8_t\<close> and \<^verbatim>\<open>uint16_t\<close> are words of that width, promoted
  to \<^verbatim>\<open>int\<close> in arithmetic. The model computes \<^verbatim>\<open>int\<close> expressions in \<open>int\<close> and every
  result that would not fit is a fault (\<open>None\<close>). \<^verbatim>\<open>size_t\<close> values (the extents
  \<open>width\<close> and \<open>height\<close>, byte offsets into the framebuffer) are natural numbers; they
  stay below \<^verbatim>\<open>sizeof(buffer_)\<close> wherever an access is made.

  Faults. A function returns \<open>None\<close> where the C++ would access an array outside its
  bounds, overflow an \<^verbatim>\<open>int\<close>, or never return; \<open>Some s\<close> is the driver state after a
  normal return.
\<close>

type_synonym uint8_t = "8 word"
type_synonym uint16_t = "16 word"
type_synonym uint_fast8_t = "32 word"

subsection \<open>Array accesses\<close>

definition store :: "'a list \<Rightarrow> nat \<Rightarrow> 'a \<Rightarrow> 'a list option" where
  "store xs i v = (if i < length xs then Some (xs[i := v]) else None)"

text \<open>The 32-bit range of \<^verbatim>\<open>int\<close>: a result outside it is undefined behaviour.\<close>

definition c_int :: "int \<Rightarrow> int option" where
  "c_int v = (if - 2147483648 \<le> v \<and> v \<le> 2147483647 then Some v else None)"

subsection \<open>Colours\<close>

definition COLOR_BLACK :: uint16_t where "COLOR_BLACK = 0x0000"
definition COLOR_WHITE :: uint16_t where "COLOR_WHITE = 0xFFFF"
definition COLOR_RED :: uint16_t where "COLOR_RED = 0xF800"
definition COLOR_CYAN :: uint16_t where "COLOR_CYAN = 0x07FF"

text \<open>
  \<^verbatim>\<open>return ((r & 0xF8) << 8) | ((g & 0xFC) << 3) | (b >> 3);\<close>
  The operands are promoted to \<^verbatim>\<open>int\<close>; the result, at most \<open>0xFFFF\<close>, is converted
  to \<^verbatim>\<open>uint16_t\<close>.
\<close>

definition RGB565 :: "uint8_t \<Rightarrow> uint8_t \<Rightarrow> uint8_t \<Rightarrow> uint16_t" where
  "RGB565 r g b =
     word_of_int (push_bit 8 (uint r AND 0xF8) OR push_bit 3 (uint g AND 0xFC) OR drop_bit 3 (uint b))"

text \<open>
  The packing as the specification writes it, on 16-bit colour values:
  \<open>R5G6B5(r,g,b) = ((r&0xF8)<<8) | ((g&0xFC)<<3) | (b>>3)\<close>.
\<close>

definition R5G6B5_spec :: "uint8_t \<Rightarrow> uint8_t \<Rightarrow> uint8_t \<Rightarrow> uint16_t" where
  "R5G6B5_spec r g b =
     push_bit 8 (ucast r AND 0xF8) OR push_bit 3 (ucast g AND 0xFC) OR drop_bit 3 (ucast b)"

subsection \<open>The transport\<close>

text \<open>
  \<^verbatim>\<open>ST7735_4WireSpiTransport\<close> drives three pins and a transmit-only SPI channel. Its
  state is write-only for the driver, so the model keeps the sequence of what it did to
  the bus; \<^verbatim>\<open>System::Delay\<close> is recorded in the same sequence. The pin numbers of the
  configuration are not modelled: a pin is named by its role.
\<close>

datatype pin = DC | RESET | CS

datatype bus_event =
    GpioInit pin
  | GpioWrite pin bool
  | SpiInit
  | SpiTransmit "uint8_t list"
  | Delay nat

definition Transport_Init :: "bus_event list \<Rightarrow> bus_event list" where
  "Transport_Init t = t @
     [GpioInit DC, GpioInit CS, GpioInit RESET,
      GpioWrite DC True, GpioWrite CS True, GpioWrite RESET True,
      SpiInit,
      Delay 10,
      GpioWrite RESET True, Delay 10,
      GpioWrite RESET False, Delay 10,
      GpioWrite RESET True, Delay 120]"

definition SendCommand :: "uint8_t \<Rightarrow> bus_event list \<Rightarrow> bus_event list" where
  "SendCommand cmd t = t @
     [GpioWrite DC False, GpioWrite CS False, SpiTransmit [cmd], GpioWrite CS True]"

text \<open>\<^verbatim>\<open>SendData(buff, size)\<close> reads \<open>len\<close> bytes (its \<^verbatim>\<open>size\<close>) of \<open>buff\<close>; reading past its end is a fault.\<close>

definition SendData :: "uint8_t list \<Rightarrow> nat \<Rightarrow> bus_event list \<Rightarrow> bus_event list option" where
  "SendData buff len t =
     (if len \<le> length buff
      then Some (t @ [GpioWrite DC True, GpioWrite CS False, SpiTransmit (take len buff),
                      GpioWrite CS True])
      else None)"

subsection \<open>The driver state\<close>

record driver =
  transport :: "bus_event list"
  buffer :: "uint8_t list"
  foreground_color :: uint16_t
  background_color :: uint16_t
  accent_color :: uint16_t

text \<open>The array \<^verbatim>\<open>buffer_\<close> has exactly \<open>width * height * 2\<close> bytes.\<close>

definition buffer_sized :: "nat \<Rightarrow> nat \<Rightarrow> driver \<Rightarrow> bool" where
  "buffer_sized width height s \<longleftrightarrow> length (buffer s) = width * height * 2"

definition transport_SendCommand :: "uint8_t \<Rightarrow> driver \<Rightarrow> driver option" where
  "transport_SendCommand cmd s = Some (s\<lparr>transport := SendCommand cmd (transport s)\<rparr>)"

definition transport_SendData :: "uint8_t list \<Rightarrow> nat \<Rightarrow> driver \<Rightarrow> driver option" where
  "transport_SendData buff len s =
     map_option (\<lambda>t. s\<lparr>transport := t\<rparr>) (SendData buff len (transport s))"

definition System_Delay :: "nat \<Rightarrow> driver \<Rightarrow> driver option" where
  "System_Delay ms s = Some (s\<lparr>transport := transport s @ [Delay ms]\<rparr>)"

subsection \<open>Pixels and fills\<close>

text \<open>
  \<^verbatim>\<open>if(x >= width || y >= height) return;
  size_t idx = (y * width + x) * 2;
  buffer_[idx] = color >> 8;  buffer_[idx + 1] = color & 0xFF;\<close>
\<close>

definition DrawPixelColor ::
  "nat \<Rightarrow> nat \<Rightarrow> uint_fast8_t \<Rightarrow> uint_fast8_t \<Rightarrow> uint16_t \<Rightarrow> driver \<Rightarrow> driver option" where
  "DrawPixelColor width height x y color s =
     (if unat x \<ge> width \<or> unat y \<ge> height then Some s
      else do {
        let idx = (unat y * width + unat x) * 2;
        b1 \<leftarrow> store (buffer s) idx (ucast (drop_bit 8 color));
        b2 \<leftarrow> store b1 (idx + 1) (ucast (color AND 0xFF));
        Some (s\<lparr>buffer := b2\<rparr>)
      })"

definition DrawPixelRGB ::
  "nat \<Rightarrow> nat \<Rightarrow> uint_fast8_t \<Rightarrow> uint_fast8_t \<Rightarrow> uint8_t \<Rightarrow> uint8_t \<Rightarrow> uint8_t \<Rightarrow> driver
     \<Rightarrow> driver option" where
  "DrawPixelRGB width height x y r g b s = DrawPixelColor width height x y (RGB565 r g b) s"

text \<open>
  \<^verbatim>\<open>for(size_t i = 0; i < sizeof(buffer_); i += 2) { buffer_[i] = hi; buffer_[i + 1] = lo; }\<close>
  with \<open>n\<close> for \<^verbatim>\<open>sizeof(buffer_)\<close>.
\<close>

function FillColor_loop :: "nat \<Rightarrow> uint8_t \<Rightarrow> uint8_t \<Rightarrow> nat \<Rightarrow> driver \<Rightarrow> driver option" where
  "FillColor_loop n hi lo i s =
     (if i < n then do {
        b1 \<leftarrow> store (buffer s) i hi;
        b2 \<leftarrow> store b1 (i + 1) lo;
        FillColor_loop n hi lo (i + 2) (s\<lparr>buffer := b2\<rparr>)
      } else Some s)"
  by pat_completeness auto
termination
  by (relation "measure (\<lambda>(n, hi, lo, i, s). n - i)") auto

definition FillColor :: "nat \<Rightarrow> nat \<Rightarrow> uint16_t \<Rightarrow> driver \<Rightarrow> driver option" where
  "FillColor width height color s =
     (let hi = ucast (drop_bit 8 color); lo = ucast (color AND 0xFF)
      in FillColor_loop (width * height * 2) hi lo 0 s)"

definition Fill :: "nat \<Rightarrow> nat \<Rightarrow> bool \<Rightarrow> driver \<Rightarrow> driver option" where
  "Fill width height on s =
     FillColor width height (if on then foreground_color s else background_color s) s"

text \<open>The colour of a pixel as stored: the byte at the offset is the high byte.\<close>

definition read16 :: "uint8_t list \<Rightarrow> nat \<Rightarrow> uint16_t" where
  "read16 buf off = push_bit 8 (ucast (buf ! off)) OR ucast (buf ! (off + 1))"

subsection \<open>Horizontal and vertical lines, rectangle outline\<close>

text \<open>
  \<^verbatim>\<open>for(uint_fast8_t i = x; i < x + w && i < width; i++) DrawPixelColor(i, y, color);\<close>
  The sum \<open>x + w\<close> is unsigned and wraps; the comparison with \<open>width\<close> is unsigned;
  \<open>i++\<close> wraps. A loop that never leaves is \<open>None\<close>.
\<close>

partial_function (option) DrawHLineColor_loop ::
  "nat \<Rightarrow> nat \<Rightarrow> uint_fast8_t \<Rightarrow> uint_fast8_t \<Rightarrow> uint_fast8_t \<Rightarrow> uint16_t \<Rightarrow> uint_fast8_t
     \<Rightarrow> driver \<Rightarrow> driver option" where
  "DrawHLineColor_loop width height x y w color i s =
     (if i < x + w \<and> unat i < width then do {
        s' \<leftarrow> DrawPixelColor width height i y color s;
        DrawHLineColor_loop width height x y w color (i + 1) s'
      } else Some s)"

definition DrawHLineColor ::
  "nat \<Rightarrow> nat \<Rightarrow> uint_fast8_t \<Rightarrow> uint_fast8_t \<Rightarrow> uint_fast8_t \<Rightarrow> uint16_t \<Rightarrow> driver
     \<Rightarrow> driver option" where
  "DrawHLineColor width height x y w color s = DrawHLineColor_loop width height x y w color x s"

text \<open>
  \<^verbatim>\<open>for(uint_fast8_t j = y; j < y + h && j < height; j++) DrawPixelColor(x, j, color);\<close>
\<close>

partial_function (option) DrawVLineColor_loop ::
  "nat \<Rightarrow> nat \<Rightarrow> uint_fast8_t \<Rightarrow> uint_fast8_t \<Rightarrow> uint_fast8_t \<Rightarrow> uint16_t \<Rightarrow> uint_fast8_t
     \<Rightarrow> driver \<Rightarrow> driver option" where
  "DrawVLineColor_loop width height x y h color j s =
     (if j < y + h \<and> unat j < height then do {
        s' \<leftarrow> DrawPixelColor width height x j color s;
        DrawVLineColor_loop width height x y h color (j + 1) s'
      } else Some s)"

definition DrawVLineColor ::
  "nat \<Rightarrow> nat \<Rightarrow> uint_fast8_t \<Rightarrow> uint_fast8_t \<Rightarrow> uint_fast8_t \<Rightarrow> uint16_t \<Rightarrow> driver
     \<Rightarrow> driver option" where
  "DrawVLineColor width height x y h color s = DrawVLineColor_loop width height x y h color y s"

text \<open>
  \<^verbatim>\<open>DrawHLineColor(x1, y1, x2 - x1 + 1, color);  DrawHLineColor(x1, y2, x2 - x1 + 1, color);
  DrawVLineColor(x1, y1, y2 - y1 + 1, color);  DrawVLineColor(x2, y1, y2 - y1 + 1, color);\<close>
  The length \<open>x2 - x1 + 1\<close> is unsigned: with \<open>x2 < x1\<close> it wraps.
\<close>

definition DrawRectColor ::
  "nat \<Rightarrow> nat \<Rightarrow> uint_fast8_t \<Rightarrow> uint_fast8_t \<Rightarrow> uint_fast8_t \<Rightarrow> uint_fast8_t \<Rightarrow> uint16_t
     \<Rightarrow> driver \<Rightarrow> driver option" where
  "DrawRectColor width height x1 y1 x2 y2 color s = do {
     let w = x2 - x1 + 1;
     let h = y2 - y1 + 1;
     s \<leftarrow> DrawHLineColor width height x1 y1 w color s;
     s \<leftarrow> DrawHLineColor width height x1 y2 w color s;
     s \<leftarrow> DrawVLineColor width height x1 y1 h color s;
     DrawVLineColor width height x2 y1 h color s
   }"

subsection \<open>Lines\<close>

text \<open>
  The loop of \<^verbatim>\<open>DrawLineColor\<close>:
  \<^verbatim>\<open>while(true) {
    DrawPixelColor(x1, y1, color);
    if(x1 == x2 && y1 == y2) break;
    int e2 = 2 * err;
    if(e2 > -dy) { err -= dy; x1 += sx; }
    if(e2 < dx) { err += dx; y1 += sy; }
  }\<close>
  \<open>x1 += sx\<close> converts \<open>sx\<close> to unsigned and adds modulo \<open>2^32\<close>.
\<close>

partial_function (option) DrawLineColor_loop ::
  "nat \<Rightarrow> nat \<Rightarrow> uint_fast8_t \<Rightarrow> uint_fast8_t \<Rightarrow> uint16_t \<Rightarrow> int \<Rightarrow> int \<Rightarrow> int \<Rightarrow> int
     \<Rightarrow> uint_fast8_t \<Rightarrow> uint_fast8_t \<Rightarrow> int \<Rightarrow> driver \<Rightarrow> driver option" where
  "DrawLineColor_loop width height x2 y2 color dx dy sx sy x1 y1 err s = do {
     s \<leftarrow> DrawPixelColor width height x1 y1 color s;
     if x1 = x2 \<and> y1 = y2 then Some s
     else do {
       e2 \<leftarrow> c_int (2 * err);
       ndy \<leftarrow> c_int (- dy);
       (err, x1) \<leftarrow> (if e2 > ndy
                      then do { e \<leftarrow> c_int (err - dy); Some (e, x1 + word_of_int sx) }
                      else Some (err, x1));
       (err, y1) \<leftarrow> (if e2 < dx
                      then do { e \<leftarrow> c_int (err + dx); Some (e, y1 + word_of_int sy) }
                      else Some (err, y1));
       DrawLineColor_loop width height x2 y2 color dx dy sx sy x1 y1 err s
     }
   }"

text \<open>
  \<^verbatim>\<open>int dx = abs((int)x2 - (int)x1);  int dy = abs((int)y2 - (int)y1);
  int sx = (x1 < x2) ? 1 : -1;  int sy = (y1 < y2) ? 1 : -1;
  int err = dx - dy;\<close>
  The comparisons \<open>x1 < x2\<close> and \<open>y1 < y2\<close> are unsigned.
\<close>

definition DrawLineColor ::
  "nat \<Rightarrow> nat \<Rightarrow> uint_fast8_t \<Rightarrow> uint_fast8_t \<Rightarrow> uint_fast8_t \<Rightarrow> uint_fast8_t \<Rightarrow> uint16_t
     \<Rightarrow> driver \<Rightarrow> driver option" where
  "DrawLineColor width height x1 y1 x2 y2 color s = do {
     dx \<leftarrow> c_int (sint x2 - sint x1) \<bind> (\<lambda>d. c_int \<bar>d\<bar>);
     dy \<leftarrow> c_int (sint y2 - sint y1) \<bind> (\<lambda>d. c_int \<bar>d\<bar>);
     let sx = (if x1 < x2 then 1 else - 1);
     let sy = (if y1 < y2 then 1 else - 1);
     err \<leftarrow> c_int (dx - dy);
     DrawLineColor_loop width height x2 y2 color dx dy sx sy x1 y1 err s
   }"

text \<open>
  The coordinates at which the loop calls \<^verbatim>\<open>DrawPixelColor\<close>, in the order of the calls:
  the same loop, recording the call instead of making it.
\<close>

partial_function (option) DrawLineColor_plots_loop ::
  "uint_fast8_t \<Rightarrow> uint_fast8_t \<Rightarrow> int \<Rightarrow> int \<Rightarrow> int \<Rightarrow> int
     \<Rightarrow> uint_fast8_t \<Rightarrow> uint_fast8_t \<Rightarrow> int \<Rightarrow> (uint_fast8_t \<times> uint_fast8_t) list option" where
  "DrawLineColor_plots_loop x2 y2 dx dy sx sy x1 y1 err =
     (if x1 = x2 \<and> y1 = y2 then Some [(x1, y1)]
      else do {
        e2 \<leftarrow> c_int (2 * err);
        ndy \<leftarrow> c_int (- dy);
        (err', x1') \<leftarrow> (if e2 > ndy
                      then do { e \<leftarrow> c_int (err - dy); Some (e, x1 + word_of_int sx) }
                      else Some (err, x1));
        (err', y1') \<leftarrow> (if e2 < dx
                      then do { e \<leftarrow> c_int (err' + dx); Some (e, y1 + word_of_int sy) }
                      else Some (err', y1));
        ps \<leftarrow> DrawLineColor_plots_loop x2 y2 dx dy sx sy x1' y1' err';
        Some ((x1, y1) # ps)
      })"

definition DrawLineColor_plots ::
  "uint_fast8_t \<Rightarrow> uint_fast8_t \<Rightarrow> uint_fast8_t \<Rightarrow> uint_fast8_t
     \<Rightarrow> (uint_fast8_t \<times> uint_fast8_t) list option" where
  "DrawLineColor_plots x1 y1 x2 y2 = do {
     dx \<leftarrow> c_int (sint x2 - sint x1) \<bind> (\<lambda>d. c_int \<bar>d\<bar>);
     dy \<leftarrow> c_int (sint y2 - sint y1) \<bind> (\<lambda>d. c_int \<bar>d\<bar>);
     let sx = (if x1 < x2 then 1 else - 1);
     let sy = (if y1 < y2 then 1 else - 1);
     err \<leftarrow> c_int (dx - dy);
     DrawLineColor_plots_loop x2 y2 dx dy sx sy x1 y1 err
   }"

subsection \<open>Presenting the framebuffer\<close>

text \<open>
  \<^verbatim>\<open>uint8_t caset[] = {0x00, 0x00, 0x00, (uint8_t)(width - 1)};\<close> and the same for the rows;
  the last transfer is \<^verbatim>\<open>SendData(buffer_, sizeof(buffer_))\<close>.
\<close>

definition Update :: "nat \<Rightarrow> nat \<Rightarrow> driver \<Rightarrow> driver option" where
  "Update width height s = do {
     s \<leftarrow> transport_SendCommand 0x2A s;
     s \<leftarrow> transport_SendData [0x00, 0x00, 0x00, word_of_int (int width - 1)] 4 s;
     s \<leftarrow> transport_SendCommand 0x2B s;
     s \<leftarrow> transport_SendData [0x00, 0x00, 0x00, word_of_int (int height - 1)] 4 s;
     s \<leftarrow> transport_SendCommand 0x2C s;
     transport_SendData (buffer s) (width * height * 2) s
   }"

subsection \<open>Initialisation\<close>

definition Init :: "nat \<Rightarrow> nat \<Rightarrow> driver \<Rightarrow> driver option" where
  "Init width height s = do {
     let s = s\<lparr>transport := Transport_Init (transport s)\<rparr>;
     let s = s\<lparr>foreground_color := COLOR_WHITE\<rparr>;
     let s = s\<lparr>background_color := COLOR_BLACK\<rparr>;
     let s = s\<lparr>accent_color := COLOR_CYAN\<rparr>;
     s \<leftarrow> transport_SendCommand 0x01 s;
     s \<leftarrow> System_Delay 150 s;
     s \<leftarrow> transport_SendCommand 0x11 s;
     s \<leftarrow> System_Delay 120 s;
     s \<leftarrow> transport_SendCommand 0xB1 s;
     let frmctr1 = [0x01, 0x2C, 0x2D];
     s \<leftarrow> transport_SendData frmctr1 3 s;
     s \<leftarrow> transport_SendCommand 0xB2 s;
     s \<leftarrow> transport_SendData frmctr1 3 s;
     s \<leftarrow> transport_SendCommand 0xB3 s;
     s \<leftarrow> transport_SendData [0x01, 0x2C, 0x2D, 0x01, 0x2C, 0x2D] 6 s;
     s \<leftarrow> transport_SendCommand 0xB4 s;
     s \<leftarrow> transport_SendData [0x07] 1 s;
     s \<leftarrow> transport_SendCommand 0xC0 s;
     s \<leftarrow> transport_SendData [0xA2, 0x02, 0x84] 3 s;
     s \<leftarrow> transport_SendCommand 0xC1 s;
     s \<leftarrow> transport_SendData [0xC5] 1 s;
     s \<leftarrow> transport_SendCommand 0xC2 s;
     s \<leftarrow> transport_SendData [0x0A, 0x00] 2 s;
     s \<leftarrow> transport_SendCommand 0xC3 s;
     s \<leftarrow> transport_SendData [0x8A, 0x2A] 2 s;
     s \<leftarrow> transport_SendCommand 0xC4 s;
     s \<leftarrow> transport_SendData [0x8A, 0xEE] 2 s;
     s \<leftarrow> transport_SendCommand 0xC5 s;
     s \<leftarrow> transport_SendData [0x0E] 1 s;
     s \<leftarrow> transport_SendCommand 0x20 s;
     s \<leftarrow> transport_SendCommand 0x36 s;
     s \<leftarrow> transport_SendData [0xC8] 1 s;
     s \<leftarrow> transport_SendCommand 0x3A s;
     s \<leftarrow> transport_SendData [0x05] 1 s;
     s \<leftarrow> System_Delay 10 s;
     s \<leftarrow> transport_SendCommand 0xE0 s;
     s \<leftarrow> transport_SendData
           [0x02, 0x1c, 0x07, 0x12, 0x37, 0x32, 0x29, 0x2d,
            0x29, 0x25, 0x2B, 0x39, 0x00, 0x01, 0x03, 0x10] 16 s;
     s \<leftarrow> transport_SendCommand 0xE1 s;
     s \<leftarrow> transport_SendData
           [0x03, 0x1d, 0x07, 0x06, 0x2E, 0x2C, 0x29, 0x2D,
            0x2E, 0x2E, 0x37, 0x3F, 0x00, 0x00, 0x02, 0x10] 16 s;
     s \<leftarrow> transport_SendCommand 0x13 s;
     s \<leftarrow> System_Delay 10 s;
     s \<leftarrow> transport_SendCommand 0x29 s;
     s \<leftarrow> System_Delay 100 s;
     s \<leftarrow> Fill width height False s;
     Update width height s
   }"

subsection \<open>What the panel receives\<close>

text \<open>
  The panel reads a transmitted byte as a command while the data/command pin is low and
  as data while it is high, and only while chip-select is low. \<open>frames dc cs\<close> reads a
  sequence of bus events from the pin levels \<open>dc\<close> and \<open>cs\<close>.
\<close>

datatype frame = Command uint8_t | Data "uint8_t list"

fun frames :: "bool \<Rightarrow> bool \<Rightarrow> bus_event list \<Rightarrow> frame list" where
  "frames dc cs [] = []"
| "frames dc cs (GpioWrite DC b # es) = frames b cs es"
| "frames dc cs (GpioWrite CS b # es) = frames dc b es"
| "frames dc cs (SpiTransmit bs # es) =
     (if cs then [] else if dc then [Data bs] else map Command bs) @ frames dc cs es"
| "frames dc cs (e # es) = frames dc cs es"

text \<open>The command bytes among the frames, in the order received.\<close>

fun commands :: "frame list \<Rightarrow> uint8_t list" where
  "commands [] = []"
| "commands (Command c # fs) = c # commands fs"
| "commands (Data bs # fs) = commands fs"

subsection \<open>The effect of a sequence of pixel writes\<close>

text \<open>
  \<open>put_pixel\<close> is what one call of \<^verbatim>\<open>DrawPixelColor\<close> does to a framebuffer of the
  right size; \<open>paint\<close> does it for a list of coordinates, first to last.
\<close>

definition put_pixel ::
  "nat \<Rightarrow> nat \<Rightarrow> uint16_t \<Rightarrow> uint_fast8_t \<times> uint_fast8_t \<Rightarrow> uint8_t list \<Rightarrow> uint8_t list" where
  "put_pixel width height color p buf =
     (if unat (fst p) < width \<and> unat (snd p) < height
      then buf[(unat (snd p) * width + unat (fst p)) * 2 := ucast (drop_bit 8 color),
               (unat (snd p) * width + unat (fst p)) * 2 + 1 := ucast (color AND 0xFF)]
      else buf)"

definition paint ::
  "nat \<Rightarrow> nat \<Rightarrow> uint16_t \<Rightarrow> (uint_fast8_t \<times> uint_fast8_t) list \<Rightarrow> uint8_t list \<Rightarrow> uint8_t list" where
  "paint width height color ps buf = fold (put_pixel width height color) ps buf"

subsection \<open>One iteration of the line loop\<close>

text \<open>
  The four \<^verbatim>\<open>int\<close> results of one iteration after the \<^verbatim>\<open>break\<close> test
  (\<open>2 * err\<close>, \<open>-dy\<close>, \<open>err - dy\<close> where it is computed, \<open>err + dx\<close> where it is
  computed) are all in range.
\<close>

definition line_ok :: "int \<Rightarrow> int \<Rightarrow> int \<Rightarrow> bool" where
  "line_ok dx dy err \<longleftrightarrow>
     c_int (2 * err) \<noteq> None \<and> c_int (- dy) \<noteq> None \<and>
     (- dy < 2 * err \<longrightarrow> c_int (err - dy) \<noteq> None) \<and>
     (2 * err < dx \<longrightarrow> c_int ((if - dy < 2 * err then err - dy else err) + dx) \<noteq> None)"

subsection \<open>The invariant of the line loop\<close>

text \<open>
  With \<open>rx\<close> and \<open>ry\<close> the steps still to go along each axis, the current point lies
  \<open>rx\<close> columns and \<open>ry\<close> rows before the end point, the error term is
  \<open>dx - dy + rx * dy - ry * dx\<close>, and twice the error term lies between \<open>- 3 * dy\<close> and
  \<open>3 * dx\<close>, which fit an \<^verbatim>\<open>int\<close>.
\<close>

definition line_inv ::
  "uint_fast8_t \<Rightarrow> uint_fast8_t \<Rightarrow> int \<Rightarrow> int \<Rightarrow> int \<Rightarrow> int
     \<Rightarrow> uint_fast8_t \<Rightarrow> uint_fast8_t \<Rightarrow> int \<Rightarrow> int \<Rightarrow> int \<Rightarrow> bool" where
  "line_inv x2 y2 dx dy sx sy x y err rx ry \<longleftrightarrow>
     0 \<le> rx \<and> rx \<le> dx \<and> 0 \<le> ry \<and> ry \<le> dy \<and>
     3 * dx \<le> 2147483647 \<and> 3 * dy \<le> 2147483647 \<and>
     (sx = 1 \<or> sx = - 1) \<and> (sy = 1 \<or> sy = - 1) \<and>
     uint x2 = uint x + sx * rx \<and> uint y2 = uint y + sy * ry \<and>
     err = dx - dy + rx * dy - ry * dx \<and>
     - 3 * dy \<le> 2 * err \<and> 2 * err \<le> 3 * dx"

text \<open>
  The end points on which the line loop is shown to return: every coordinate is below
  \<open>2^31\<close>, so that \<^verbatim>\<open>(int)\<close> keeps its value, and the end points are at most
  715827882 (a third of \<^verbatim>\<open>INT_MAX\<close>) apart on each axis, so that \<open>2 * err\<close> fits.
\<close>

definition line_domain ::
  "uint_fast8_t \<Rightarrow> uint_fast8_t \<Rightarrow> uint_fast8_t \<Rightarrow> uint_fast8_t \<Rightarrow> bool" where
  "line_domain x1 y1 x2 y2 \<longleftrightarrow>
     uint x1 < 2147483648 \<and> uint y1 < 2147483648 \<and>
     uint x2 < 2147483648 \<and> uint y2 < 2147483648 \<and>
     \<bar>uint x2 - uint x1\<bar> \<le> 715827882 \<and>
     \<bar>uint y2 - uint y1\<bar> \<le> 715827882"

subsection \<open>A driver before its first use\<close>

text \<open>A driver object with an empty bus history and a zeroed framebuffer, for examples.\<close>

definition fresh_driver :: "nat \<Rightarrow> nat \<Rightarrow> driver" where
  "fresh_driver width height =
     \<lparr>transport = [], buffer = replicate (width * height * 2) 0,
      foreground_color = 0, background_color = 0, accent_color = 0\<rparr>"

section \<open>Colour packing\<close>

lemma bit_63488: "bit (63488 :: int) n \<longleftrightarrow> 11 \<le> n \<and> n < 16"
proof -
  have e: "(63488 :: int) = push_bit 11 (mask 5)" by (simp add: mask_eq_exp_minus_1)
  show ?thesis by (subst e) (simp only: bit_push_bit_iff bit_mask_iff possible_bit_int, auto)
qed

lemma bit_2016: "bit (2016 :: int) n \<longleftrightarrow> 5 \<le> n \<and> n < 11"
proof -
  have e: "(2016 :: int) = push_bit 5 (mask 6)" by (simp add: mask_eq_exp_minus_1)
  show ?thesis by (subst e) (simp only: bit_push_bit_iff bit_mask_iff possible_bit_int, auto)
qed

lemma RGB565_bits:
  "bit (RGB565 r g b) n \<longleftrightarrow>
     (if n < 5 then bit b (n + 3)
      else if n < 11 then bit g (n - 3)
      else n < 16 \<and> bit r (n - 8))"
  unfolding RGB565_def
  by (auto simp add: bit_simps bit_63488 bit_2016 add.commute dest: bit_imp_le_length)

lemma channels_sum_or:
  "(unat r div 8) * 2048 + (unat g div 4) * 32 + unat b div 8 =
     push_bit 11 (drop_bit 3 (unat r)) OR push_bit 5 (drop_bit 2 (unat g)) OR drop_bit 3 (unat b)"
  for r g b :: uint8_t
proof -
  let ?R = "push_bit 11 (drop_bit 3 (unat r))"
  let ?G = "push_bit 5 (drop_bit 2 (unat g))"
  let ?B = "drop_bit 3 (unat b)"
  have gb: "?G + ?B = ?G OR ?B"
    by (rule disjunctive_add_eq_or, rule bit_eqI)
      (auto simp add: bit_simps dest: bit_imp_le_length)
  have rgb: "?R + (?G OR ?B) = ?R OR (?G OR ?B)"
    by (rule disjunctive_add_eq_or, rule bit_eqI)
      (auto simp add: bit_simps dest: bit_imp_le_length)
  have "(unat r div 8) * 2048 + (unat g div 4) * 32 + unat b div 8 = ?R + (?G + ?B)"
    by (simp add: push_bit_eq_mult drop_bit_eq_div)
  also have "\<dots> = ?R OR (?G OR ?B)"
    by (simp only: gb rgb)
  finally show ?thesis by (simp add: ac_simps)
qed

lemma Suc_Suc_minus5: "5 \<le> n \<Longrightarrow> Suc (Suc (n - 5)) = n - 3"
  by arith

lemma channels_bits:
  "bit (word_of_nat ((unat r div 8) * 2048 + (unat g div 4) * 32 + unat b div 8) :: uint16_t) n \<longleftrightarrow>
     (if n < 5 then bit b (n + 3)
      else if n < 11 then bit g (n - 3)
      else n < 16 \<and> bit r (n - 8))"
  for r g b :: uint8_t
  unfolding channels_sum_or
  by (auto simp add: bit_simps add.commute Suc_Suc_minus5 dest: bit_imp_le_length)

lemma channels_less:
  "(unat r div 8) * 2048 + (unat g div 4) * 32 + unat b div 8 < 65536"
  for r g b :: uint8_t
proof -
  have "unat r < 256" "unat g < 256" "unat b < 256"
    by (rule order_less_le_trans[OF unsigned_less], simp)+
  then have "unat r div 8 \<le> 31" "unat g div 4 \<le> 63" "unat b div 8 \<le> 31"
    by simp_all
  then show ?thesis by linarith
qed

lemma R5G6B5_spec_bits:
  "bit (R5G6B5_spec r g b) n \<longleftrightarrow>
     (if n < 5 then bit b (n + 3)
      else if n < 11 then bit g (n - 3)
      else n < 16 \<and> bit r (n - 8))"
  unfolding R5G6B5_spec_def
  by (auto simp add: bit_simps bit_63488 bit_2016 add.commute dest: bit_imp_le_length)

text \<open>
  Claim C4. For every 8-bit triple \<open>(r, g, b)\<close> the conversion \<^verbatim>\<open>RGB565\<close>, a function of
  its three arguments, equals the bit-packing formula of the specification, and it does
  so bit for bit: bits 0 to 4 of the result are bits 3 to 7 of \<open>b\<close>, bits 5 to 10 are
  bits 2 to 7 of \<open>g\<close>, bits 11 to 15 are bits 3 to 7 of \<open>r\<close>; as a number it is
  \<open>(r div 8) * 2048 + (g div 4) * 32 + b div 8\<close>.
\<close>

theorem RGB565_bit_exact:
  "RGB565 r g b = R5G6B5_spec r g b \<and>
   (\<forall>n. bit (RGB565 r g b) n \<longleftrightarrow>
     (if n < 5 then bit b (n + 3)
      else if n < 11 then bit g (n - 3)
      else n < 16 \<and> bit r (n - 8))) \<and>
   unat (RGB565 r g b) = (unat r div 8) * 2048 + (unat g div 4) * 32 + unat b div 8"
proof (intro conjI allI)
  show "RGB565 r g b = R5G6B5_spec r g b"
    by (rule bit_word_eqI) (simp only: RGB565_bits R5G6B5_spec_bits)
  show "bit (RGB565 r g b) n \<longleftrightarrow>
     (if n < 5 then bit b (n + 3)
      else if n < 11 then bit g (n - 3)
      else n < 16 \<and> bit r (n - 8))" for n
    by (rule RGB565_bits)
  let ?n = "(unat r div 8) * 2048 + (unat g div 4) * 32 + unat b div 8"
  have "unat (word_of_nat ?n :: uint16_t) = ?n mod 2 ^ LENGTH(16)"
    by (rule unat_of_nat)
  with channels_less[of r g b] have "unat (word_of_nat ?n :: uint16_t) = ?n"
    by simp
  moreover have "RGB565 r g b = word_of_nat ?n"
    by (rule bit_word_eqI) (simp only: RGB565_bits channels_bits)
  ultimately show "unat (RGB565 r g b) = ?n"
    by (simp only:)
qed

section \<open>Single pixels\<close>

lemma bit_255:
  "bit (255 :: 'a :: semiring_bit_operations) n \<longleftrightarrow> possible_bit TYPE('a) n \<and> n < 8"
proof -
  have e: "(255 :: 'a) = mask 8" by (simp add: mask_numeral)
  show ?thesis by (subst e) (auto simp add: bit_simps)
qed

lemma hi_lo_read:
  "push_bit 8 (ucast (ucast (drop_bit 8 c) :: uint8_t)) OR ucast (ucast (c AND 0xFF) :: uint8_t) = c"
  for c :: uint16_t
  by (rule bit_word_eqI) (auto simp add: bit_simps bit_255)

lemma index_in_bounds:
  "x < width \<Longrightarrow> y < height \<Longrightarrow> (y * width + x) * 2 + 1 < width * height * (2::nat)"
proof -
  assume x: "x < width" and y: "y < height"
  from y have "Suc y \<le> height" by simp
  then have "Suc y * width \<le> height * width" by (rule mult_le_mono1)
  with x show ?thesis by (simp add: algebra_simps)
qed

lemma DrawPixelColor_eq:
  assumes "buffer_sized width height s" "unat x < width" "unat y < height"
  shows "DrawPixelColor width height x y color s =
    Some (s\<lparr>buffer := (buffer s)[(unat y * width + unat x) * 2 := ucast (drop_bit 8 color),
                                 (unat y * width + unat x) * 2 + 1 := ucast (color AND 0xFF)]\<rparr>)"
  using assms index_in_bounds[of "unat x" width "unat y" height]
  by (simp add: DrawPixelColor_def store_def buffer_sized_def Let_def)

lemma DrawPixelColor_in_bounds:
  assumes "buffer_sized width height s" "unat x < width" "unat y < height"
  shows "\<exists>buf. DrawPixelColor width height x y color s = Some (s\<lparr>buffer := buf\<rparr>) \<and>
         length buf = width * height * 2 \<and>
         (unat y * width + unat x) * 2 + 1 < length buf \<and>
         buf ! ((unat y * width + unat x) * 2) = ucast (drop_bit 8 color) \<and>
         buf ! ((unat y * width + unat x) * 2 + 1) = ucast (color AND 0xFF) \<and>
         read16 buf ((unat y * width + unat x) * 2) = color \<and>
         (\<forall>i. i \<noteq> (unat y * width + unat x) * 2 \<and> i \<noteq> (unat y * width + unat x) * 2 + 1
              \<longrightarrow> buf ! i = buffer s ! i)"
proof -
  let ?i = "(unat y * width + unat x) * 2"
  let ?buf = "(buffer s)[?i := ucast (drop_bit 8 color), ?i + 1 := ucast (color AND 0xFF)]"
  from assms have ib: "?i + 1 < length (buffer s)"
    using index_in_bounds[of "unat x" width "unat y" height] by (simp add: buffer_sized_def)
  have "DrawPixelColor width height x y color s = Some (s\<lparr>buffer := ?buf\<rparr>)"
    using assms by (simp add: DrawPixelColor_eq)
  moreover have "length ?buf = width * height * 2" using assms by (simp add: buffer_sized_def)
  moreover have "?i + 1 < length ?buf" using ib by simp
  moreover have "?buf ! ?i = ucast (drop_bit 8 color)" using ib by (simp add: nth_list_update)
  moreover have "?buf ! (?i + 1) = ucast (color AND 0xFF)" using ib by (simp add: nth_list_update)
  moreover have "read16 ?buf ?i = color"
    using ib by (simp add: read16_def nth_list_update hi_lo_read)
  moreover have "\<forall>j. j \<noteq> ?i \<and> j \<noteq> ?i + 1 \<longrightarrow> ?buf ! j = buffer s ! j"
    by simp
  ultimately show ?thesis by blast
qed

lemma DrawPixelColor_clipped:
  "width \<le> unat x \<or> height \<le> unat y \<Longrightarrow> DrawPixelColor width height x y color s = Some s"
  by (auto simp add: DrawPixelColor_def)

text \<open>
  Claim C3. On a driver whose framebuffer has its \<open>width * height * 2\<close> bytes, for every
  coordinate with \<open>x < width\<close> and \<open>y < height\<close> and every colour, \<^verbatim>\<open>DrawPixelColor\<close>
  returns, having stored the high byte of the colour at offset \<open>(y * width + x) * 2\<close> and
  the low byte after it, so that reading the two bytes back gives the colour; no other
  byte and no other member changes. For every coordinate with \<open>x \<ge> width\<close> or
  \<open>y \<ge> height\<close> it returns the driver unchanged.
\<close>

theorem DrawPixelColor_stores_or_clips:
  "(buffer_sized width height s \<and> unat x < width \<and> unat y < height \<longrightarrow>
      (\<exists>buf. DrawPixelColor width height x y color s = Some (s\<lparr>buffer := buf\<rparr>) \<and>
         length buf = width * height * 2 \<and>
         (unat y * width + unat x) * 2 + 1 < length buf \<and>
         buf ! ((unat y * width + unat x) * 2) = ucast (drop_bit 8 color) \<and>
         buf ! ((unat y * width + unat x) * 2 + 1) = ucast (color AND 0xFF) \<and>
         read16 buf ((unat y * width + unat x) * 2) = color \<and>
         (\<forall>i. i \<noteq> (unat y * width + unat x) * 2 \<and> i \<noteq> (unat y * width + unat x) * 2 + 1
              \<longrightarrow> buf ! i = buffer s ! i))) \<and>
   (width \<le> unat x \<or> height \<le> unat y \<longrightarrow> DrawPixelColor width height x y color s = Some s)"
  using DrawPixelColor_in_bounds[of width height s x y color]
    DrawPixelColor_clipped[of width x height y color s]
  by blast

text \<open>
  The theorem at a 2 by 2 framebuffer: the pixel \<open>(1, 1)\<close> lies inside, \<open>(2, 0)\<close> outside.
\<close>

theorem DrawPixelColor_stores_or_clips_witness:
  "buffer_sized 2 2 (fresh_driver 2 2) \<and> unat (1 :: uint_fast8_t) < 2 \<and>
   (\<exists>buf. DrawPixelColor 2 2 1 1 0xF800 (fresh_driver 2 2) = Some ((fresh_driver 2 2)\<lparr>buffer := buf\<rparr>) \<and>
      read16 buf 6 = 0xF800) \<and>
   (2::nat) \<le> unat (2 :: uint_fast8_t) \<and>
   DrawPixelColor 2 2 2 0 0xF800 (fresh_driver 2 2) = Some (fresh_driver 2 2)"
proof -
  have w: "buffer_sized 2 2 (fresh_driver 2 2)" by (simp add: buffer_sized_def fresh_driver_def)
  from DrawPixelColor_stores_or_clips [of 2 2 "fresh_driver 2 2" 1 1 "0xF800"] w
  have "\<exists>buf. DrawPixelColor 2 2 1 1 0xF800 (fresh_driver 2 2) = Some ((fresh_driver 2 2)\<lparr>buffer := buf\<rparr>) \<and>
      read16 buf 6 = 0xF800"
    by auto
  moreover from DrawPixelColor_stores_or_clips [of 2 2 "fresh_driver 2 2" 2 0 "0xF800"]
  have "DrawPixelColor 2 2 2 0 0xF800 (fresh_driver 2 2) = Some (fresh_driver 2 2)"
    by simp
  ultimately show ?thesis using w by simp
qed

section \<open>Presenting\<close>

lemma Update_eq:
  assumes "buffer_sized width height s"
  shows "Update width height s = Some (s\<lparr>transport := transport s @
      [GpioWrite DC False, GpioWrite CS False, SpiTransmit [0x2A], GpioWrite CS True,
       GpioWrite DC True, GpioWrite CS False,
       SpiTransmit [0x00, 0x00, 0x00, word_of_int (int width - 1)], GpioWrite CS True,
       GpioWrite DC False, GpioWrite CS False, SpiTransmit [0x2B], GpioWrite CS True,
       GpioWrite DC True, GpioWrite CS False,
       SpiTransmit [0x00, 0x00, 0x00, word_of_int (int height - 1)], GpioWrite CS True,
       GpioWrite DC False, GpioWrite CS False, SpiTransmit [0x2C], GpioWrite CS True,
       GpioWrite DC True, GpioWrite CS False, SpiTransmit (buffer s), GpioWrite CS True]\<rparr>)"
  using assms
  by (simp add: Update_def transport_SendCommand_def transport_SendData_def SendCommand_def
      SendData_def buffer_sized_def)

lemma low_byte_of_extent:
  assumes "0 < n" "n \<le> 256"
  shows "unat (word_of_nat n - 1 :: uint8_t) = n - Suc 0"
proof -
  from assms obtain m where n: "n = Suc m" and m: "m < 256" by (cases n) auto
  have "unat (word_of_nat m :: uint8_t) = m"
    using m by (simp add: unat_of_nat)
  then show ?thesis by (simp add: n)
qed

text \<open>
  Claim C6. On a driver whose framebuffer has its \<open>width * height * 2\<close> bytes, a call of
  \<^verbatim>\<open>Update\<close> returns and adds to the bus exactly: the command \<open>0x2A\<close> (column address
  set) and one data transfer of the four bytes \<open>0, 0, 0, (uint8_t)(width - 1)\<close>; the
  command \<open>0x2B\<close> (row address set) and one data transfer of the four bytes
  \<open>0, 0, 0, (uint8_t)(height - 1)\<close>; the command \<open>0x2C\<close> (memory write); then one data
  transfer of the whole framebuffer as it is at the call, \<open>width * height * 2\<close> bytes.
  Nothing else is sent and no member other than the transport changes. The last
  parameter byte has the value \<open>width - 1\<close> (\<open>height - 1\<close>) for every extent from 1 to
  256, which covers every panel size of the controller.
\<close>

theorem Update_emits:
  "buffer_sized width height s \<longrightarrow>
     (\<exists>ev. Update width height s = Some (s\<lparr>transport := transport s @ ev\<rparr>) \<and>
        ev = [GpioWrite DC False, GpioWrite CS False, SpiTransmit [0x2A], GpioWrite CS True,
              GpioWrite DC True, GpioWrite CS False,
              SpiTransmit [0x00, 0x00, 0x00, word_of_int (int width - 1)], GpioWrite CS True,
              GpioWrite DC False, GpioWrite CS False, SpiTransmit [0x2B], GpioWrite CS True,
              GpioWrite DC True, GpioWrite CS False,
              SpiTransmit [0x00, 0x00, 0x00, word_of_int (int height - 1)], GpioWrite CS True,
              GpioWrite DC False, GpioWrite CS False, SpiTransmit [0x2C], GpioWrite CS True,
              GpioWrite DC True, GpioWrite CS False, SpiTransmit (buffer s), GpioWrite CS True] \<and>
        (\<forall>dc cs. frames dc cs ev =
           [Command 0x2A, Data [0x00, 0x00, 0x00, word_of_int (int width - 1)],
            Command 0x2B, Data [0x00, 0x00, 0x00, word_of_int (int height - 1)],
            Command 0x2C, Data (buffer s)]) \<and>
        length (buffer s) = width * height * 2 \<and>
        (0 < width \<and> width \<le> 256 \<longrightarrow> unat (word_of_int (int width - 1) :: uint8_t) = width - 1) \<and>
        (0 < height \<and> height \<le> 256 \<longrightarrow> unat (word_of_int (int height - 1) :: uint8_t) = height - 1))"
  by (simp add: Update_eq low_byte_of_extent buffer_sized_def)

theorem Update_emits_witness:
  "buffer_sized 128 160 (fresh_driver 128 160) \<and> (0::nat) < 128 \<and> (128::nat) \<le> 256 \<and>
   (0::nat) < 160 \<and> (160::nat) \<le> 256 \<and>
   (\<exists>ev. Update 128 160 (fresh_driver 128 160) =
            Some ((fresh_driver 128 160)\<lparr>transport := transport (fresh_driver 128 160) @ ev\<rparr>) \<and>
      frames True True ev =
        [Command 0x2A, Data [0x00, 0x00, 0x00, 127],
         Command 0x2B, Data [0x00, 0x00, 0x00, 159],
         Command 0x2C, Data (buffer (fresh_driver 128 160))])"
proof -
  have w: "buffer_sized 128 160 (fresh_driver 128 160)" by (simp add: buffer_sized_def fresh_driver_def)
  from Update_emits [of 128 160 "fresh_driver 128 160"] w
  obtain ev where
    "Update 128 160 (fresh_driver 128 160) =
       Some ((fresh_driver 128 160)\<lparr>transport := transport (fresh_driver 128 160) @ ev\<rparr>)"
    "\<forall>dc cs. frames dc cs ev =
       [Command 0x2A, Data [0x00, 0x00, 0x00, word_of_int (int 128 - 1)],
        Command 0x2B, Data [0x00, 0x00, 0x00, word_of_int (int 160 - 1)],
        Command 0x2C, Data (buffer (fresh_driver 128 160))]"
    by blast
  then show ?thesis using w by auto
qed

section \<open>Filling\<close>

lemma FillColor_loop_eq:
  "length (buffer s) = n \<Longrightarrow> even n \<Longrightarrow> even i \<Longrightarrow> i \<le> n \<Longrightarrow>
   FillColor_loop n hi lo i s =
     Some (s\<lparr>buffer := take i (buffer s) @ concat (replicate ((n - i) div 2) [hi, lo])\<rparr>)"
proof (induction n hi lo i s rule: FillColor_loop.induct)
  case (1 n hi lo i s)
  show ?case
  proof (cases "i < n")
    case False
    with "1.prems" show ?thesis by simp
  next
    case True
    with "1.prems" have i1: "i + 1 < n" by presburger
    let ?b = "(buffer s)[i := hi, i + 1 := lo]"
    let ?s = "s\<lparr>buffer := ?b\<rparr>"
    have st: "store (buffer s) i hi = Some ((buffer s)[i := hi])"
      "store ((buffer s)[i := hi]) (i + 1) lo = Some ?b"
      using i1 "1.prems" by (simp_all add: store_def)
    have ih: "FillColor_loop n hi lo (i + 2) ?s =
      Some (?s\<lparr>buffer := take (i + 2) (buffer ?s) @ concat (replicate ((n - (i + 2)) div 2) [hi, lo])\<rparr>)"
      using "1.IH"[OF True st(1) st(2)] "1.prems" i1 by simp
    have tk: "take (Suc (Suc i)) ((buffer s)[i := hi, Suc i := lo]) = take i (buffer s) @ [hi, lo]"
      using i1 "1.prems"
      by (simp add: take_Suc_conv_app_nth nth_list_update)
    have dv: "(n - i) div 2 = Suc ((n - Suc (Suc i)) div 2)"
      using i1 by presburger
    have "FillColor_loop n hi lo i s = FillColor_loop n hi lo (i + 2) ?s"
      using True st by (subst FillColor_loop.simps) simp
    also note ih
    finally show ?thesis
      by (simp add: tk dv del: FillColor_loop.simps)
  qed
qed

lemma FillColor_eq:
  assumes "buffer_sized width height s"
  shows "FillColor width height color s =
    Some (s\<lparr>buffer := concat (replicate (width * height)
                          [ucast (drop_bit 8 color), ucast (color AND 0xFF)])\<rparr>)"
  using assms FillColor_loop_eq[of s "width * height * 2" 0]
  by (simp add: FillColor_def buffer_sized_def Let_def del: FillColor_loop.simps)

lemma buffer_sized_transport_update [simp]: "buffer_sized w h (s\<lparr>transport := t\<rparr>) = buffer_sized w h s"
  by (simp add: buffer_sized_def)

lemma buffer_sized_filled [simp]: "buffer_sized w h (s\<lparr>buffer := concat (replicate (w * h) [a, b])\<rparr>)"
  by (simp add: buffer_sized_def length_concat sum_list_replicate)

text \<open>
  Claim C7. On a driver whose framebuffer has its \<open>width * height * 2\<close> bytes, for every
  colour, \<^verbatim>\<open>FillColor(color); Update();\<close> returns, and run a second time it returns with
  the same framebuffer as after the first run, having added to the bus the same events,
  therefore the same bytes, as the first run did.
\<close>

theorem Fill_Update_idempotent:
  "buffer_sized width height s \<longrightarrow>
     (\<exists>s1 s2 ev. (FillColor width height color s \<bind> Update width height) = Some s1 \<and>
        (FillColor width height color s1 \<bind> Update width height) = Some s2 \<and>
        buffer s2 = buffer s1 \<and>
        transport s1 = transport s @ ev \<and>
        transport s2 = transport s1 @ ev)"
  by (simp add: FillColor_eq Update_eq)

theorem Fill_Update_idempotent_witness:
  "buffer_sized 128 160 (fresh_driver 128 160) \<and>
   (\<exists>s1 s2. (FillColor 128 160 0xF800 (fresh_driver 128 160) \<bind> Update 128 160) = Some s1 \<and>
      (FillColor 128 160 0xF800 s1 \<bind> Update 128 160) = Some s2 \<and> buffer s2 = buffer s1)"
proof -
  have w: "buffer_sized 128 160 (fresh_driver 128 160)" by (simp add: buffer_sized_def fresh_driver_def)
  with Fill_Update_idempotent [of 128 160 "fresh_driver 128 160" "0xF800"]
  show ?thesis by blast
qed

section \<open>Initialisation script\<close>

lemma nth_concat_pairs:
  "p < n \<Longrightarrow> concat (replicate n [a, b]) ! (p * 2) = a \<and>
                concat (replicate n [a, b]) ! (p * 2 + 1) = b"
proof (induction n arbitrary: p)
  case 0
  then show ?case by simp
next
  case (Suc n)
  then show ?case by (cases p) simp_all
qed

lemma read16_filled:
  "p < n \<Longrightarrow> read16 (concat (replicate n [ucast (drop_bit 8 c), ucast (c AND 0xFF)])) (p * 2) = c"
  for c :: uint16_t
proof -
  assume "p < n"
  from nth_concat_pairs[OF this, of "ucast (drop_bit 8 c) :: uint8_t" "ucast (c AND 0xFF) :: uint8_t"]
  show ?thesis
    unfolding read16_def by (simp only: hi_lo_read)
qed

lemma read16_zeros: "p < n \<Longrightarrow> read16 (concat (replicate n [0, 0])) (p * 2) = 0"
  using read16_filled[of p n 0] by simp

lemma Init_eq:
  assumes "buffer_sized width height s"
  shows "Init width height s = Some (s\<lparr>transport := transport s @
     [GpioInit DC, GpioInit CS, GpioInit RESET,
      GpioWrite DC True, GpioWrite CS True, GpioWrite RESET True,
      SpiInit, Delay 10, GpioWrite RESET True, Delay 10,
      GpioWrite RESET False, Delay 10, GpioWrite RESET True, Delay 120,
      GpioWrite DC False, GpioWrite CS False, SpiTransmit [0x01], GpioWrite CS True, Delay 150,
      GpioWrite DC False, GpioWrite CS False, SpiTransmit [0x11], GpioWrite CS True, Delay 120,
      GpioWrite DC False, GpioWrite CS False, SpiTransmit [0xB1], GpioWrite CS True,
      GpioWrite DC True, GpioWrite CS False, SpiTransmit [0x01, 0x2C, 0x2D], GpioWrite CS True,
      GpioWrite DC False, GpioWrite CS False, SpiTransmit [0xB2], GpioWrite CS True,
      GpioWrite DC True, GpioWrite CS False, SpiTransmit [0x01, 0x2C, 0x2D], GpioWrite CS True,
      GpioWrite DC False, GpioWrite CS False, SpiTransmit [0xB3], GpioWrite CS True,
      GpioWrite DC True, GpioWrite CS False,
      SpiTransmit [0x01, 0x2C, 0x2D, 0x01, 0x2C, 0x2D], GpioWrite CS True,
      GpioWrite DC False, GpioWrite CS False, SpiTransmit [0xB4], GpioWrite CS True,
      GpioWrite DC True, GpioWrite CS False, SpiTransmit [0x07], GpioWrite CS True,
      GpioWrite DC False, GpioWrite CS False, SpiTransmit [0xC0], GpioWrite CS True,
      GpioWrite DC True, GpioWrite CS False, SpiTransmit [0xA2, 0x02, 0x84], GpioWrite CS True,
      GpioWrite DC False, GpioWrite CS False, SpiTransmit [0xC1], GpioWrite CS True,
      GpioWrite DC True, GpioWrite CS False, SpiTransmit [0xC5], GpioWrite CS True,
      GpioWrite DC False, GpioWrite CS False, SpiTransmit [0xC2], GpioWrite CS True,
      GpioWrite DC True, GpioWrite CS False, SpiTransmit [0x0A, 0x00], GpioWrite CS True,
      GpioWrite DC False, GpioWrite CS False, SpiTransmit [0xC3], GpioWrite CS True,
      GpioWrite DC True, GpioWrite CS False, SpiTransmit [0x8A, 0x2A], GpioWrite CS True,
      GpioWrite DC False, GpioWrite CS False, SpiTransmit [0xC4], GpioWrite CS True,
      GpioWrite DC True, GpioWrite CS False, SpiTransmit [0x8A, 0xEE], GpioWrite CS True,
      GpioWrite DC False, GpioWrite CS False, SpiTransmit [0xC5], GpioWrite CS True,
      GpioWrite DC True, GpioWrite CS False, SpiTransmit [0x0E], GpioWrite CS True,
      GpioWrite DC False, GpioWrite CS False, SpiTransmit [0x20], GpioWrite CS True,
      GpioWrite DC False, GpioWrite CS False, SpiTransmit [0x36], GpioWrite CS True,
      GpioWrite DC True, GpioWrite CS False, SpiTransmit [0xC8], GpioWrite CS True,
      GpioWrite DC False, GpioWrite CS False, SpiTransmit [0x3A], GpioWrite CS True,
      GpioWrite DC True, GpioWrite CS False, SpiTransmit [0x05], GpioWrite CS True, Delay 10,
      GpioWrite DC False, GpioWrite CS False, SpiTransmit [0xE0], GpioWrite CS True,
      GpioWrite DC True, GpioWrite CS False,
      SpiTransmit [0x02, 0x1c, 0x07, 0x12, 0x37, 0x32, 0x29, 0x2d,
                   0x29, 0x25, 0x2B, 0x39, 0x00, 0x01, 0x03, 0x10], GpioWrite CS True,
      GpioWrite DC False, GpioWrite CS False, SpiTransmit [0xE1], GpioWrite CS True,
      GpioWrite DC True, GpioWrite CS False,
      SpiTransmit [0x03, 0x1d, 0x07, 0x06, 0x2E, 0x2C, 0x29, 0x2D,
                   0x2E, 0x2E, 0x37, 0x3F, 0x00, 0x00, 0x02, 0x10], GpioWrite CS True,
      GpioWrite DC False, GpioWrite CS False, SpiTransmit [0x13], GpioWrite CS True, Delay 10,
      GpioWrite DC False, GpioWrite CS False, SpiTransmit [0x29], GpioWrite CS True, Delay 100,
      GpioWrite DC False, GpioWrite CS False, SpiTransmit [0x2A], GpioWrite CS True,
      GpioWrite DC True, GpioWrite CS False,
      SpiTransmit [0x00, 0x00, 0x00, word_of_int (int width - 1)], GpioWrite CS True,
      GpioWrite DC False, GpioWrite CS False, SpiTransmit [0x2B], GpioWrite CS True,
      GpioWrite DC True, GpioWrite CS False,
      SpiTransmit [0x00, 0x00, 0x00, word_of_int (int height - 1)], GpioWrite CS True,
      GpioWrite DC False, GpioWrite CS False, SpiTransmit [0x2C], GpioWrite CS True,
      GpioWrite DC True, GpioWrite CS False,
      SpiTransmit (concat (replicate (width * height) [0, 0])), GpioWrite CS True],
    buffer := concat (replicate (width * height) [0, 0]),
    foreground_color := COLOR_WHITE, background_color := COLOR_BLACK,
    accent_color := COLOR_CYAN\<rparr>)"
  using assms
  by (simp add: Init_def Transport_Init_def transport_SendCommand_def transport_SendData_def
      SendCommand_def SendData_def System_Delay_def Fill_def FillColor_eq Update_eq
      COLOR_BLACK_def Let_def buffer_sized_def length_concat sum_list_replicate)

text \<open>
  Claim C8. On a driver whose framebuffer has its \<open>width * height * 2\<close> bytes, \<^verbatim>\<open>Init\<close>
  returns, and what the panel receives is, each command once and in this order: software
  reset \<open>0x01\<close>, sleep-out \<open>0x11\<close>, the three frame-rate controls \<open>0xB1\<close>, \<open>0xB2\<close>,
  \<open>0xB3\<close>, display inversion control \<open>0xB4\<close>, the five power controls \<open>0xC0\<close> to
  \<open>0xC4\<close>, VCOM control \<open>0xC5\<close>, inversion off \<open>0x20\<close>, memory access control
  \<open>0x36\<close>, pixel format \<open>0x3A\<close>, the two gamma tables \<open>0xE0\<close> and \<open>0xE1\<close> of 16 bytes
  each, normal display mode on \<open>0x13\<close>, display on \<open>0x29\<close>, each with the parameter bytes
  of the source; then the frames of one \<^verbatim>\<open>Update\<close>, whose data burst is the framebuffer.
  Afterwards every pixel of the framebuffer is the background colour.
\<close>

theorem Init_script_then_clear:
  "buffer_sized width height s \<longrightarrow>
     (\<exists>s' ev. Init width height s = Some s' \<and> transport s' = transport s @ ev \<and>
        (\<forall>dc cs. frames dc cs ev =
           [Command 0x01, Command 0x11,
            Command 0xB1, Data [0x01, 0x2C, 0x2D],
            Command 0xB2, Data [0x01, 0x2C, 0x2D],
            Command 0xB3, Data [0x01, 0x2C, 0x2D, 0x01, 0x2C, 0x2D],
            Command 0xB4, Data [0x07],
            Command 0xC0, Data [0xA2, 0x02, 0x84],
            Command 0xC1, Data [0xC5],
            Command 0xC2, Data [0x0A, 0x00],
            Command 0xC3, Data [0x8A, 0x2A],
            Command 0xC4, Data [0x8A, 0xEE],
            Command 0xC5, Data [0x0E],
            Command 0x20,
            Command 0x36, Data [0xC8],
            Command 0x3A, Data [0x05],
            Command 0xE0, Data [0x02, 0x1c, 0x07, 0x12, 0x37, 0x32, 0x29, 0x2d,
                                0x29, 0x25, 0x2B, 0x39, 0x00, 0x01, 0x03, 0x10],
            Command 0xE1, Data [0x03, 0x1d, 0x07, 0x06, 0x2E, 0x2C, 0x29, 0x2D,
                                0x2E, 0x2E, 0x37, 0x3F, 0x00, 0x00, 0x02, 0x10],
            Command 0x13, Command 0x29,
            Command 0x2A, Data [0x00, 0x00, 0x00, word_of_int (int width - 1)],
            Command 0x2B, Data [0x00, 0x00, 0x00, word_of_int (int height - 1)],
            Command 0x2C, Data (buffer s')] \<and>
          commands (frames dc cs ev) =
           [0x01, 0x11, 0xB1, 0xB2, 0xB3, 0xB4, 0xC0, 0xC1, 0xC2, 0xC3, 0xC4, 0xC5,
            0x20, 0x36, 0x3A, 0xE0, 0xE1, 0x13, 0x29, 0x2A, 0x2B, 0x2C]) \<and>
        length (buffer s') = width * height * 2 \<and>
        (\<forall>p. p < width * height \<longrightarrow> read16 (buffer s') (p * 2) = background_color s'))"
proof
  assume w: "buffer_sized width height s"
  show "\<exists>s' ev. Init width height s = Some s' \<and> transport s' = transport s @ ev \<and>
        (\<forall>dc cs. frames dc cs ev =
           [Command 0x01, Command 0x11,
            Command 0xB1, Data [0x01, 0x2C, 0x2D],
            Command 0xB2, Data [0x01, 0x2C, 0x2D],
            Command 0xB3, Data [0x01, 0x2C, 0x2D, 0x01, 0x2C, 0x2D],
            Command 0xB4, Data [0x07],
            Command 0xC0, Data [0xA2, 0x02, 0x84],
            Command 0xC1, Data [0xC5],
            Command 0xC2, Data [0x0A, 0x00],
            Command 0xC3, Data [0x8A, 0x2A],
            Command 0xC4, Data [0x8A, 0xEE],
            Command 0xC5, Data [0x0E],
            Command 0x20,
            Command 0x36, Data [0xC8],
            Command 0x3A, Data [0x05],
            Command 0xE0, Data [0x02, 0x1c, 0x07, 0x12, 0x37, 0x32, 0x29, 0x2d,
                                0x29, 0x25, 0x2B, 0x39, 0x00, 0x01, 0x03, 0x10],
            Command 0xE1, Data [0x03, 0x1d, 0x07, 0x06, 0x2E, 0x2C, 0x29, 0x2D,
                                0x2E, 0x2E, 0x37, 0x3F, 0x00, 0x00, 0x02, 0x10],
            Command 0x13, Command 0x29,
            Command 0x2A, Data [0x00, 0x00, 0x00, word_of_int (int width - 1)],
            Command 0x2B, Data [0x00, 0x00, 0x00, word_of_int (int height - 1)],
            Command 0x2C, Data (buffer s')] \<and>
          commands (frames dc cs ev) =
           [0x01, 0x11, 0xB1, 0xB2, 0xB3, 0xB4, 0xC0, 0xC1, 0xC2, 0xC3, 0xC4, 0xC5,
            0x20, 0x36, 0x3A, 0xE0, 0xE1, 0x13, 0x29, 0x2A, 0x2B, 0x2C]) \<and>
        length (buffer s') = width * height * 2 \<and>
        (\<forall>p. p < width * height \<longrightarrow> read16 (buffer s') (p * 2) = background_color s')"
    unfolding Init_eq[OF w]
    by (simp add: read16_zeros COLOR_BLACK_def length_concat sum_list_replicate)
qed

theorem Init_script_then_clear_witness:
  "buffer_sized 128 160 (fresh_driver 128 160) \<and>
   (\<exists>s'. Init 128 160 (fresh_driver 128 160) = Some s' \<and> length (buffer s') = 40960 \<and>
      read16 (buffer s') 0 = background_color s')"
proof -
  have w: "buffer_sized 128 160 (fresh_driver 128 160)" by (simp add: buffer_sized_def fresh_driver_def)
  with Init_script_then_clear [of 128 160 "fresh_driver 128 160"]
  obtain s' where i: "Init 128 160 (fresh_driver 128 160) = Some s'"
    and l: "length (buffer s') = 128 * 160 * 2"
    and b: "\<forall>p. p < 128 * 160 \<longrightarrow> read16 (buffer s') (p * 2) = background_color s'"
    by blast
  from b have "0 < (128::nat) * 160 \<longrightarrow> read16 (buffer s') (0 * 2) = background_color s'"
    by (rule spec)
  then have "read16 (buffer s') 0 = background_color s'" by simp
  with i l w show ?thesis by simp
qed

section \<open>Lines\<close>

subsection \<open>One iteration of the loop\<close>

lemma line_body_eq:
  "c_int (2 * err) \<bind>
     (\<lambda>e2. c_int (- dy) \<bind>
       (\<lambda>ndy. (if ndy < e2 then c_int (err - dy) \<bind> (\<lambda>e. Some (e, x + word_of_int sx))
                else Some (err, x)) \<bind>
         (\<lambda>(err', x').
            (if e2 < dx then c_int (err' + dx) \<bind> (\<lambda>e. Some (e, y + word_of_int sy))
             else Some (err', y)) \<bind>
            (\<lambda>(err', y'). g x' y' err')))) =
   (if line_ok dx dy err
    then g (if - dy < 2 * err then x + word_of_int sx else x)
           (if 2 * err < dx then y + word_of_int sy else y)
           ((if - dy < 2 * err then err - dy else err) + (if 2 * err < dx then dx else 0))
    else None)"
  by (simp add: line_ok_def c_int_def)

lemma plots_loop_step:
  "DrawLineColor_plots_loop x2 y2 dx dy sx sy x y err =
     (if x = x2 \<and> y = y2 then Some [(x, y)]
      else if line_ok dx dy err
      then do { ps \<leftarrow> DrawLineColor_plots_loop x2 y2 dx dy sx sy
                  (if - dy < 2 * err then x + word_of_int sx else x)
                  (if 2 * err < dx then y + word_of_int sy else y)
                  ((if - dy < 2 * err then err - dy else err) + (if 2 * err < dx then dx else 0));
                Some ((x, y) # ps) }
      else None)"
  by (subst DrawLineColor_plots_loop.simps) (simp only: line_body_eq)

lemma loop_step:
  "DrawLineColor_loop w h x2 y2 c dx dy sx sy x y err s =
     do { s' \<leftarrow> DrawPixelColor w h x y c s;
          if x = x2 \<and> y = y2 then Some s'
          else if line_ok dx dy err
          then DrawLineColor_loop w h x2 y2 c dx dy sx sy
                  (if - dy < 2 * err then x + word_of_int sx else x)
                  (if 2 * err < dx then y + word_of_int sy else y)
                  ((if - dy < 2 * err then err - dy else err) + (if 2 * err < dx then dx else 0))
                  s'
          else None }"
  by (subst DrawLineColor_loop.simps) (simp only: line_body_eq)

lemma plots_loop_unfold:
  assumes "\<not> (x = x2 \<and> y = y2)" "- 3 * dy \<le> 2 * err" "2 * err \<le> 3 * dx"
    "0 \<le> dx" "3 * dx \<le> 2147483647" "0 \<le> dy" "3 * dy \<le> 2147483647"
  shows "DrawLineColor_plots_loop x2 y2 dx dy sx sy x y err =
     do { ps \<leftarrow> DrawLineColor_plots_loop x2 y2 dx dy sx sy
                  (if - dy < 2 * err then x + word_of_int sx else x)
                  (if 2 * err < dx then y + word_of_int sy else y)
                  ((if - dy < 2 * err then err - dy else err) + (if 2 * err < dx then dx else 0));
          Some ((x, y) # ps) }"
  using assms
  by (subst DrawLineColor_plots_loop.simps) (auto simp add: c_int_def)

lemma uint_step:
  "0 \<le> uint x + k \<Longrightarrow> uint x + k < 4294967296 \<Longrightarrow> uint (x + word_of_int k) = uint x + k"
  for x :: uint_fast8_t
proof -
  assume a: "0 \<le> uint x + k" "uint x + k < 4294967296"
  have "x + word_of_int k = word_of_int (uint x + k)" by simp
  moreover have "uint (word_of_int (uint x + k) :: uint_fast8_t) = uint x + k"
    using a by (simp only: uint_word_of_int_eq) (simp add: take_bit_int_eq_self)
  ultimately show ?thesis by (simp only:)
qed

lemma line_inv_not_done:
  assumes "line_inv x2 y2 dx dy sx sy x y err rx ry" "\<not> (x = x2 \<and> y = y2)"
  shows "0 < rx \<or> 0 < ry"
proof (rule ccontr)
  assume "\<not> (0 < rx \<or> 0 < ry)"
  with assms(1) have "rx = 0" "ry = 0" by (auto simp add: line_inv_def)
  with assms(1) have "uint x2 = uint x" "uint y2 = uint y" by (auto simp add: line_inv_def)
  then have "x = x2 \<and> y = y2" by (simp add: word_uint_eq_iff)
  with assms(2) show False by simp
qed

lemma line_inv_stepx:
  assumes inv: "line_inv x2 y2 dx dy sx sy x y err rx ry" and ng: "\<not> (x = x2 \<and> y = y2)"
    and st: "- dy < 2 * err"
  shows "0 < rx"
proof (rule ccontr)
  assume "\<not> 0 < rx"
  with inv have rx: "rx = 0" by (simp add: line_inv_def)
  with line_inv_not_done[OF inv ng] have ry: "1 \<le> ry" by simp
  from inv have dx: "0 \<le> dx" and dy: "0 \<le> dy" by (auto simp add: line_inv_def)
  from ry dx have "1 * dx \<le> ry * dx" by (intro mult_right_mono) auto
  moreover from inv rx have "err = dx - dy - ry * dx" by (simp add: line_inv_def)
  ultimately have "2 * err \<le> - dy" using dy by simp
  with st show False by simp
qed

lemma line_inv_stepy:
  assumes inv: "line_inv x2 y2 dx dy sx sy x y err rx ry" and ng: "\<not> (x = x2 \<and> y = y2)"
    and st: "2 * err < dx"
  shows "0 < ry"
proof (rule ccontr)
  assume "\<not> 0 < ry"
  with inv have ry: "ry = 0" by (simp add: line_inv_def)
  with line_inv_not_done[OF inv ng] have rx: "1 \<le> rx" by simp
  from inv have dx: "0 \<le> dx" and dy: "0 \<le> dy" by (auto simp add: line_inv_def)
  from rx dy have "1 * dy \<le> rx * dy" by (intro mult_right_mono) auto
  moreover from inv ry have "err = dx - dy + rx * dy" by (simp add: line_inv_def)
  ultimately have "dx \<le> 2 * err" using dx by simp
  with st show False by simp
qed

lemma line_inv_progress:
  assumes inv: "line_inv x2 y2 dx dy sx sy x y err rx ry" and ng: "\<not> (x = x2 \<and> y = y2)"
  shows "- dy < 2 * err \<or> 2 * err < dx"
proof (rule ccontr)
  assume "\<not> (- dy < 2 * err \<or> 2 * err < dx)"
  then have "dx \<le> - dy" by simp
  with inv have "rx = 0" "ry = 0" by (auto simp add: line_inv_def)
  with line_inv_not_done[OF inv ng] show False by simp
qed

lemma line_inv_step:
  assumes inv: "line_inv x2 y2 dx dy sx sy x y err rx ry" and ng: "\<not> (x = x2 \<and> y = y2)"
  shows "line_inv x2 y2 dx dy sx sy
           (if - dy < 2 * err then x + word_of_int sx else x)
           (if 2 * err < dx then y + word_of_int sy else y)
           ((if - dy < 2 * err then err - dy else err) + (if 2 * err < dx then dx else 0))
           (if - dy < 2 * err then rx - 1 else rx)
           (if 2 * err < dx then ry - 1 else ry)"
proof -
  have lim: "0 \<le> uint x2" "uint x2 < 4294967296" "0 \<le> uint x" "uint x < 4294967296"
    "0 \<le> uint y2" "uint y2 < 4294967296" "0 \<le> uint y" "uint y < 4294967296"
    using uint_lt2p[of x2] uint_lt2p[of x] uint_lt2p[of y2] uint_lt2p[of y] by simp_all
  have x: "uint (x + word_of_int sx) = uint x + sx" if "- dy < 2 * err"
  proof -
    from line_inv_stepx[OF inv ng that] have rx: "1 \<le> rx" by simp
    from inv have e: "uint x2 = uint x + sx * rx" and s: "sx = 1 \<or> sx = - 1"
      by (auto simp add: line_inv_def)
    from e s rx lim have "0 \<le> uint x + sx" "uint x + sx < 4294967296" by auto
    then show ?thesis by (rule uint_step)
  qed
  have y: "uint (y + word_of_int sy) = uint y + sy" if "2 * err < dx"
  proof -
    from line_inv_stepy[OF inv ng that] have ry: "1 \<le> ry" by simp
    from inv have e: "uint y2 = uint y + sy * ry" and s: "sy = 1 \<or> sy = - 1"
      by (auto simp add: line_inv_def)
    from e s ry lim have "0 \<le> uint y + sy" "uint y + sy < 4294967296" by auto
    then show ?thesis by (rule uint_step)
  qed
  show ?thesis
    using inv line_inv_stepx[OF inv ng] line_inv_stepy[OF inv ng] x y
    unfolding line_inv_def
    by (auto simp add: algebra_simps)
qed

subsection \<open>Pixel writes\<close>

lemma length_put_pixel [simp]: "length (put_pixel w h c p buf) = length buf"
  by (simp add: put_pixel_def)

lemma length_paint [simp]: "length (paint w h c ps buf) = length buf"
  unfolding paint_def by (induction ps arbitrary: buf) simp_all

lemma paint_Nil [simp]: "paint w h c [] buf = buf"
  by (simp add: paint_def)

lemma paint_Cons [simp]: "paint w h c (p # ps) buf = paint w h c ps (put_pixel w h c p buf)"
  by (simp add: paint_def)

lemma paint_append [simp]: "paint w h c (ps @ qs) buf = paint w h c qs (paint w h c ps buf)"
  by (simp add: paint_def)

lemma DrawPixelColor_put:
  assumes "buffer_sized w h s"
  shows "DrawPixelColor w h x y c s = Some (s\<lparr>buffer := put_pixel w h c (x, y) (buffer s)\<rparr>)"
proof (cases "unat x < w \<and> unat y < h")
  case True
  with assms show ?thesis by (simp add: DrawPixelColor_eq put_pixel_def)
next
  case False
  then show ?thesis by (auto simp add: DrawPixelColor_def put_pixel_def)
qed

lemma read16_put_pixel:
  assumes "p * 2 + 1 < length buf"
  shows "read16 (put_pixel w h c q buf) (p * 2) =
     (if unat (fst q) < w \<and> unat (snd q) < h \<and> p = unat (snd q) * w + unat (fst q)
      then c else read16 buf (p * 2))"
proof (cases "unat (fst q) < w \<and> unat (snd q) < h")
  case False
  then show ?thesis by (auto simp add: put_pixel_def)
next
  case True
  let ?i = "unat (snd q) * w + unat (fst q)"
  show ?thesis
  proof (cases "p = ?i")
    case True
    with assms \<open>unat (fst q) < w \<and> unat (snd q) < h\<close> show ?thesis
      by (simp add: put_pixel_def read16_def nth_list_update hi_lo_read)
  next
    case False
    then have "p * 2 \<noteq> ?i * 2" "p * 2 \<noteq> ?i * 2 + 1" "p * 2 + 1 \<noteq> ?i * 2" "p * 2 + 1 \<noteq> ?i * 2 + 1"
      by presburger+
    with False \<open>unat (fst q) < w \<and> unat (snd q) < h\<close> show ?thesis
      by (simp add: put_pixel_def read16_def)
  qed
qed

lemma read16_paint:
  assumes "p * 2 + 1 < length buf"
  shows "read16 (paint w h c ps buf) (p * 2) =
     (if \<exists>q \<in> set ps. unat (fst q) < w \<and> unat (snd q) < h \<and> p = unat (snd q) * w + unat (fst q)
      then c else read16 buf (p * 2))"
  using assms
proof (induction ps arbitrary: buf)
  case Nil
  then show ?case by simp
next
  case (Cons q ps)
  from Cons.prems have "p * 2 + 1 < length (put_pixel w h c q buf)" by simp
  from Cons.IH[OF this] Cons.prems show ?case
    by (simp only: paint_Cons read16_put_pixel) auto
qed

subsection \<open>The plots of a call that returns\<close>

lemma plots_loop_ends:
  assumes "DrawLineColor_plots_loop x2 y2 dx dy sx sy x y err = Some ps"
  shows "ps \<noteq> [] \<and> hd ps = (x, y) \<and> last ps = (x2, y2)"
proof (rule DrawLineColor_plots_loop.raw_induct
    [where P = "\<lambda>x2 y2 dx dy sx sy x y err ps. ps \<noteq> [] \<and> hd ps = (x, y) \<and> last ps = (x2, y2)",
      OF _ assms], goal_cases)
  case (1 f x2 y2 dx dy sx sy x y err ps)
  note IH = 1(1) and body = 1(2)[unfolded line_body_eq]
  show ?case
  proof (cases "x = x2 \<and> y = y2")
    case True
    with body show ?thesis by auto
  next
    case False
    let ?x = "if - dy < 2 * err then x + word_of_int sx else x"
    let ?y = "if 2 * err < dx then y + word_of_int sy else y"
    let ?err = "(if - dy < 2 * err then err - dy else err) + (if 2 * err < dx then dx else 0)"
    from False body have ok: "line_ok dx dy err"
      by (simp split: if_splits)
    from False ok body have "(f x2 y2 dx dy sx sy ?x ?y ?err \<bind> (\<lambda>ps. Some ((x, y) # ps))) = Some ps"
      by (simp only: if_False if_True)
    then obtain ps' where r: "f x2 y2 dx dy sx sy ?x ?y ?err = Some ps'"
      and ps: "ps = (x, y) # ps'"
      by (cases "f x2 y2 dx dy sx sy ?x ?y ?err") auto
    from IH[OF r] ps show ?thesis by simp
  qed
qed

lemma plots_loop_paint_all:
  assumes "DrawLineColor_plots_loop x2 y2 dx dy sx sy x y err = Some ps"
  shows "\<forall>s. buffer_sized w h s \<longrightarrow>
     DrawLineColor_loop w h x2 y2 c dx dy sx sy x y err s =
       Some (s\<lparr>buffer := paint w h c ps (buffer s)\<rparr>)"
proof (rule DrawLineColor_plots_loop.raw_induct
    [where P = "\<lambda>x2 y2 dx dy sx sy x y err ps. \<forall>s. buffer_sized w h s \<longrightarrow>
       DrawLineColor_loop w h x2 y2 c dx dy sx sy x y err s =
         Some (s\<lparr>buffer := paint w h c ps (buffer s)\<rparr>)",
      OF _ assms], goal_cases)
  case (1 f x2 y2 dx dy sx sy x y err ps)
  note IH = 1(1) and body = 1(2)[unfolded line_body_eq]
  show ?case
  proof (intro allI impI)
    fix s :: driver
    assume wf: "buffer_sized w h s"
    let ?s = "s\<lparr>buffer := put_pixel w h c (x, y) (buffer s)\<rparr>"
    have w': "buffer_sized w h ?s" using wf by (simp add: buffer_sized_def)
    show "DrawLineColor_loop w h x2 y2 c dx dy sx sy x y err s =
        Some (s\<lparr>buffer := paint w h c ps (buffer s)\<rparr>)"
    proof (cases "x = x2 \<and> y = y2")
      case True
      with body have "ps = [(x, y)]" by auto
      with True show ?thesis
        by (subst loop_step) (simp add: DrawPixelColor_put[OF wf])
    next
      case False
      let ?x = "if - dy < 2 * err then x + word_of_int sx else x"
      let ?y = "if 2 * err < dx then y + word_of_int sy else y"
      let ?err = "(if - dy < 2 * err then err - dy else err) + (if 2 * err < dx then dx else 0)"
      from False body have ok: "line_ok dx dy err"
        by (simp split: if_splits)
      from False ok body have "(f x2 y2 dx dy sx sy ?x ?y ?err \<bind> (\<lambda>ps. Some ((x, y) # ps))) = Some ps"
        by (simp only: if_False if_True)
      then obtain ps' where r: "f x2 y2 dx dy sx sy ?x ?y ?err = Some ps'"
        and ps: "ps = (x, y) # ps'"
        by (cases "f x2 y2 dx dy sx sy ?x ?y ?err") auto
      from IH[OF r] w'
      have "DrawLineColor_loop w h x2 y2 c dx dy sx sy ?x ?y ?err ?s =
          Some (?s\<lparr>buffer := paint w h c ps' (buffer ?s)\<rparr>)"
        by blast
      then have "DrawLineColor_loop w h x2 y2 c dx dy sx sy ?x ?y ?err ?s =
          Some (s\<lparr>buffer := paint w h c ps (buffer s)\<rparr>)"
        by (simp add: ps)
      moreover have "DrawLineColor_loop w h x2 y2 c dx dy sx sy x y err s =
          DrawLineColor_loop w h x2 y2 c dx dy sx sy ?x ?y ?err ?s"
        using False ok
        by (subst loop_step) (simp only: DrawPixelColor_put[OF wf] bind.bind_lunit if_False if_True)
      ultimately show ?thesis by (simp only:)
    qed
  qed
qed

lemma plots_loop_paint:
  "DrawLineColor_plots_loop x2 y2 dx dy sx sy x y err = Some ps \<Longrightarrow> buffer_sized w h s \<Longrightarrow>
     DrawLineColor_loop w h x2 y2 c dx dy sx sy x y err s =
       Some (s\<lparr>buffer := paint w h c ps (buffer s)\<rparr>)"
  using plots_loop_paint_all by blast

lemma loop_Some_plots:
  assumes "DrawLineColor_loop w h x2 y2 c dx dy sx sy x y err s = Some s'"
  shows "\<exists>ps. DrawLineColor_plots_loop x2 y2 dx dy sx sy x y err = Some ps"
proof (rule DrawLineColor_loop.raw_induct
    [where P = "\<lambda>w h x2 y2 c dx dy sx sy x y err s s'.
        \<exists>ps. DrawLineColor_plots_loop x2 y2 dx dy sx sy x y err = Some ps",
      OF _ assms], goal_cases)
  case (1 f w h x2 y2 c dx dy sx sy x y err s s')
  note IH = 1(1) and body = 1(2)[unfolded line_body_eq]
  show ?case
  proof (cases "x = x2 \<and> y = y2")
    case True
    then show ?thesis by (subst plots_loop_step) simp
  next
    case False
    let ?x = "if - dy < 2 * err then x + word_of_int sx else x"
    let ?y = "if 2 * err < dx then y + word_of_int sy else y"
    let ?err = "(if - dy < 2 * err then err - dy else err) + (if 2 * err < dx then dx else 0)"
    from body obtain s1 where s1: "DrawPixelColor w h x y c s = Some s1"
      and b1: "(if x = x2 \<and> y = y2 then Some s1
                else if line_ok dx dy err then f w h x2 y2 c dx dy sx sy ?x ?y ?err s1 else None) = Some s'"
      by (cases "DrawPixelColor w h x y c s") auto
    from False b1 have ok: "line_ok dx dy err" by (simp split: if_splits)
    with False b1 have r: "f w h x2 y2 c dx dy sx sy ?x ?y ?err s1 = Some s'"
      by (simp only: if_False if_True)
    from IH[OF r] obtain ps where
      p: "DrawLineColor_plots_loop x2 y2 dx dy sx sy ?x ?y ?err = Some ps" by blast
    have "DrawLineColor_plots_loop x2 y2 dx dy sx sy x y err = Some ((x, y) # ps)"
      using False ok by (subst plots_loop_step) (simp only: p bind.bind_lunit if_False if_True)
    then show ?thesis by blast
  qed
qed

lemma c_int_abs:
  "c_int d \<bind> (\<lambda>d. c_int \<bar>d\<bar>) = (if \<bar>d\<bar> \<le> 2147483647 then Some \<bar>d\<bar> else None)"
  by (auto simp add: c_int_def)

lemma c_int_diff:
  "0 \<le> a \<Longrightarrow> a \<le> 2147483647 \<Longrightarrow> 0 \<le> b \<Longrightarrow> b \<le> 2147483647 \<Longrightarrow> c_int (a - b) = Some (a - b)"
  by (simp add: c_int_def)

lemma DrawLineColor_plots_eq:
  "DrawLineColor_plots x1 y1 x2 y2 =
     (if \<bar>sint x2 - sint x1\<bar> \<le> 2147483647 \<and> \<bar>sint y2 - sint y1\<bar> \<le> 2147483647
      then DrawLineColor_plots_loop x2 y2 \<bar>sint x2 - sint x1\<bar> \<bar>sint y2 - sint y1\<bar>
             (if x1 < x2 then 1 else - 1) (if y1 < y2 then 1 else - 1) x1 y1
             (\<bar>sint x2 - sint x1\<bar> - \<bar>sint y2 - sint y1\<bar>)
      else None)"
proof (cases "\<bar>sint x2 - sint x1\<bar> \<le> 2147483647 \<and> \<bar>sint y2 - sint y1\<bar> \<le> 2147483647")
  case True
  then have "c_int (\<bar>sint x2 - sint x1\<bar> - \<bar>sint y2 - sint y1\<bar>) =
      Some (\<bar>sint x2 - sint x1\<bar> - \<bar>sint y2 - sint y1\<bar>)"
    by (intro c_int_diff) simp_all
  with True show ?thesis
    unfolding DrawLineColor_plots_def c_int_abs Let_def by simp
next
  case False
  then show ?thesis
    unfolding DrawLineColor_plots_def c_int_abs Let_def by auto
qed

lemma DrawLineColor_eq:
  "DrawLineColor w h x1 y1 x2 y2 c s =
     (if \<bar>sint x2 - sint x1\<bar> \<le> 2147483647 \<and> \<bar>sint y2 - sint y1\<bar> \<le> 2147483647
      then DrawLineColor_loop w h x2 y2 c \<bar>sint x2 - sint x1\<bar> \<bar>sint y2 - sint y1\<bar>
             (if x1 < x2 then 1 else - 1) (if y1 < y2 then 1 else - 1) x1 y1
             (\<bar>sint x2 - sint x1\<bar> - \<bar>sint y2 - sint y1\<bar>) s
      else None)"
proof (cases "\<bar>sint x2 - sint x1\<bar> \<le> 2147483647 \<and> \<bar>sint y2 - sint y1\<bar> \<le> 2147483647")
  case True
  then have "c_int (\<bar>sint x2 - sint x1\<bar> - \<bar>sint y2 - sint y1\<bar>) =
      Some (\<bar>sint x2 - sint x1\<bar> - \<bar>sint y2 - sint y1\<bar>)"
    by (intro c_int_diff) simp_all
  with True show ?thesis
    unfolding DrawLineColor_def c_int_abs Let_def by simp
next
  case False
  then show ?thesis
    unfolding DrawLineColor_def c_int_abs Let_def by auto
qed

lemma DrawLineColor_paint:
  assumes "DrawLineColor_plots x1 y1 x2 y2 = Some ps" "buffer_sized w h s"
  shows "DrawLineColor w h x1 y1 x2 y2 c s = Some (s\<lparr>buffer := paint w h c ps (buffer s)\<rparr>)"
proof -
  from assms(1) have ok: "\<bar>sint x2 - sint x1\<bar> \<le> 2147483647 \<and> \<bar>sint y2 - sint y1\<bar> \<le> 2147483647"
    by (simp add: DrawLineColor_plots_eq split: if_splits)
  with assms(1) have "DrawLineColor_plots_loop x2 y2 \<bar>sint x2 - sint x1\<bar> \<bar>sint y2 - sint y1\<bar>
             (if x1 < x2 then 1 else - 1) (if y1 < y2 then 1 else - 1) x1 y1
             (\<bar>sint x2 - sint x1\<bar> - \<bar>sint y2 - sint y1\<bar>) = Some ps"
    by (simp add: DrawLineColor_plots_eq)
  from plots_loop_paint[OF this assms(2)] ok show ?thesis
    by (simp add: DrawLineColor_eq)
qed

lemma DrawLineColor_Some_plots:
  assumes "DrawLineColor w h x1 y1 x2 y2 c s = Some s'"
  shows "\<exists>ps. DrawLineColor_plots x1 y1 x2 y2 = Some ps"
proof -
  from assms have ok: "\<bar>sint x2 - sint x1\<bar> \<le> 2147483647 \<and> \<bar>sint y2 - sint y1\<bar> \<le> 2147483647"
    by (simp add: DrawLineColor_eq split: if_splits)
  with assms have "DrawLineColor_loop w h x2 y2 c \<bar>sint x2 - sint x1\<bar> \<bar>sint y2 - sint y1\<bar>
             (if x1 < x2 then 1 else - 1) (if y1 < y2 then 1 else - 1) x1 y1
             (\<bar>sint x2 - sint x1\<bar> - \<bar>sint y2 - sint y1\<bar>) s = Some s'"
    by (simp add: DrawLineColor_eq)
  from loop_Some_plots[OF this] ok show ?thesis
    by (simp add: DrawLineColor_plots_eq)
qed

lemma DrawLineColor_plots_ends:
  assumes "DrawLineColor_plots x1 y1 x2 y2 = Some ps"
  shows "ps \<noteq> [] \<and> hd ps = (x1, y1) \<and> last ps = (x2, y2)"
proof -
  from assms have ok: "\<bar>sint x2 - sint x1\<bar> \<le> 2147483647 \<and> \<bar>sint y2 - sint y1\<bar> \<le> 2147483647"
    by (simp add: DrawLineColor_plots_eq split: if_splits)
  with assms have "DrawLineColor_plots_loop x2 y2 \<bar>sint x2 - sint x1\<bar> \<bar>sint y2 - sint y1\<bar>
             (if x1 < x2 then 1 else - 1) (if y1 < y2 then 1 else - 1) x1 y1
             (\<bar>sint x2 - sint x1\<bar> - \<bar>sint y2 - sint y1\<bar>) = Some ps"
    by (simp add: DrawLineColor_plots_eq)
  then show ?thesis by (rule plots_loop_ends)
qed

subsection \<open>End points on which the loop returns\<close>

lemma line_loop_total:
  assumes "line_inv x2 y2 dx dy sx sy x y err rx ry"
  shows "\<exists>ps. DrawLineColor_plots_loop x2 y2 dx dy sx sy x y err = Some ps \<and>
           length ps \<le> nat (rx + ry) + 1"
  using assms
proof (induction "nat (rx + ry)" arbitrary: x y err rx ry rule: less_induct)
  case less
  note inv = less.prems
  from inv have bounds: "- 3 * dy \<le> 2 * err" "2 * err \<le> 3 * dx"
    "0 \<le> dx" "3 * dx \<le> 2147483647" "0 \<le> dy" "3 * dy \<le> 2147483647"
    by (auto simp add: line_inv_def)
  show ?case
  proof (cases "x = x2 \<and> y = y2")
    case True
    have "DrawLineColor_plots_loop x2 y2 dx dy sx sy x y err = Some [(x, y)]"
      using True by (subst DrawLineColor_plots_loop.simps) simp
    then show ?thesis by simp
  next
    case False
    let ?x = "if - dy < 2 * err then x + word_of_int sx else x"
    let ?y = "if 2 * err < dx then y + word_of_int sy else y"
    let ?err = "(if - dy < 2 * err then err - dy else err) + (if 2 * err < dx then dx else 0)"
    let ?rx = "if - dy < 2 * err then rx - 1 else rx"
    let ?ry = "if 2 * err < dx then ry - 1 else ry"
    have inv': "line_inv x2 y2 dx dy sx sy ?x ?y ?err ?rx ?ry"
      by (rule line_inv_step[OF inv False])
    from inv' have nn': "0 \<le> ?rx" "0 \<le> ?ry" by (auto simp add: line_inv_def)
    have dec: "?rx + ?ry < rx + ry"
      using line_inv_progress[OF inv False] by auto
    then have lt: "nat (?rx + ?ry) < nat (rx + ry)" using nn' by linarith
    from less.hyps[OF lt inv'] obtain ps where
      ps: "DrawLineColor_plots_loop x2 y2 dx dy sx sy ?x ?y ?err = Some ps"
      and len: "length ps \<le> nat (?rx + ?ry) + 1"
      by blast
    have 1: "DrawLineColor_plots_loop x2 y2 dx dy sx sy x y err = Some ((x, y) # ps)"
      by (simp only: plots_loop_unfold[OF False bounds] ps) simp
    have "length ((x, y) # ps) = length ps + 1" by simp
    with len lt have 2: "length ((x, y) # ps) \<le> nat (rx + ry) + 1"
      by linarith
    from 1 2 show ?thesis by simp
  qed
qed

lemma sint_small: "uint x < 2147483648 \<Longrightarrow> sint x = uint x" for x :: uint_fast8_t
proof -
  assume a: "uint x < 2147483648"
  have "- (2 ^ 31) \<le> uint x" by (rule order_trans[of _ 0]) simp_all
  moreover from a have "uint x < 2 ^ 31" by simp
  ultimately have "signed_take_bit 31 (uint x) = uint x"
    by (rule signed_take_bit_int_eq_self)
  then show ?thesis by (simp add: sint_uint)
qed

lemma line_inv_init:
  assumes "line_domain x1 y1 x2 y2"
  shows "line_inv x2 y2 \<bar>sint x2 - sint x1\<bar> \<bar>sint y2 - sint y1\<bar>
     (if x1 < x2 then 1 else - 1) (if y1 < y2 then 1 else - 1) x1 y1
     (\<bar>sint x2 - sint x1\<bar> - \<bar>sint y2 - sint y1\<bar>)
     \<bar>sint x2 - sint x1\<bar> \<bar>sint y2 - sint y1\<bar>"
proof -
  from assms have s: "sint x1 = uint x1" "sint x2 = uint x2" "sint y1 = uint y1" "sint y2 = uint y2"
    by (simp_all add: line_domain_def sint_small)
  from assms have d: "\<bar>uint x2 - uint x1\<bar> \<le> 715827882" "\<bar>uint y2 - uint y1\<bar> \<le> 715827882"
    by (simp_all add: line_domain_def)
  have x: "uint x2 = uint x1 + (if uint x1 < uint x2 then 1 else - 1) * \<bar>uint x2 - uint x1\<bar>"
    by simp
  have y: "uint y2 = uint y1 + (if uint y1 < uint y2 then 1 else - 1) * \<bar>uint y2 - uint y1\<bar>"
    by simp
  have "line_inv x2 y2 \<bar>uint x2 - uint x1\<bar> \<bar>uint y2 - uint y1\<bar>
     (if uint x1 < uint x2 then 1 else - 1) (if uint y1 < uint y2 then 1 else - 1) x1 y1
     (\<bar>uint x2 - uint x1\<bar> - \<bar>uint y2 - uint y1\<bar>)
     \<bar>uint x2 - uint x1\<bar> \<bar>uint y2 - uint y1\<bar>"
    unfolding line_inv_def
  proof (intro conjI)
    have nn: "0 \<le> \<bar>uint x2 - uint x1\<bar>" "0 \<le> \<bar>uint y2 - uint y1\<bar>" by simp_all
    show "- 3 * \<bar>uint y2 - uint y1\<bar> \<le> 2 * (\<bar>uint x2 - uint x1\<bar> - \<bar>uint y2 - uint y1\<bar>)"
      using nn by arith
    show "2 * (\<bar>uint x2 - uint x1\<bar> - \<bar>uint y2 - uint y1\<bar>) \<le> 3 * \<bar>uint x2 - uint x1\<bar>"
      using nn by arith
  qed (use x y d in \<open>simp_all add: algebra_simps\<close>)
  then show ?thesis by (simp only: word_less_def s)
qed

lemma DrawLineColor_plots_total:
  assumes "line_domain x1 y1 x2 y2"
  shows "\<exists>ps. DrawLineColor_plots x1 y1 x2 y2 = Some ps \<and>
     length ps \<le> nat \<bar>uint x2 - uint x1\<bar> + nat \<bar>uint y2 - uint y1\<bar> + 1"
proof -
  from assms have s: "sint x1 = uint x1" "sint x2 = uint x2" "sint y1 = uint y1" "sint y2 = uint y2"
    by (simp_all add: line_domain_def sint_small)
  from assms have ok: "\<bar>sint x2 - sint x1\<bar> \<le> 2147483647 \<and> \<bar>sint y2 - sint y1\<bar> \<le> 2147483647"
    unfolding s by (simp add: line_domain_def)
  from line_loop_total[OF line_inv_init[OF assms]] obtain ps where
    p: "DrawLineColor_plots_loop x2 y2 \<bar>sint x2 - sint x1\<bar> \<bar>sint y2 - sint y1\<bar>
             (if x1 < x2 then 1 else - 1) (if y1 < y2 then 1 else - 1) x1 y1
             (\<bar>sint x2 - sint x1\<bar> - \<bar>sint y2 - sint y1\<bar>) = Some ps"
    and l: "length ps \<le> nat (\<bar>sint x2 - sint x1\<bar> + \<bar>sint y2 - sint y1\<bar>) + 1"
    by blast
  from p ok have "DrawLineColor_plots x1 y1 x2 y2 = Some ps"
    by (simp add: DrawLineColor_plots_eq)
  moreover from l have "length ps \<le> nat \<bar>uint x2 - uint x1\<bar> + nat \<bar>uint y2 - uint y1\<bar> + 1"
    unfolding s by (simp add: nat_add_distrib)
  ultimately show ?thesis by blast
qed

subsection \<open>Swapped end points\<close>

lemma word_diff_left_eq: "a - x = a - y \<longleftrightarrow> x = y" for a x y :: uint_fast8_t
  by auto

lemma word_reflect_step: "a - x + word_of_int (- k) = a - (x + word_of_int k)" for a x :: uint_fast8_t
  by simp

lemma plots_loop_reflect_all:
  assumes "DrawLineColor_plots_loop x2 y2 dx dy sx sy x y err = Some ps"
  shows "(dx \<noteq> 0 \<longrightarrow> sxr = - sx) \<and> (dy \<noteq> 0 \<longrightarrow> syr = - sy) \<and>
         (dx = 0 \<longrightarrow> 2 * err \<le> - dy) \<and> (dy = 0 \<longrightarrow> dx \<le> 2 * err) \<longrightarrow>
     DrawLineColor_plots_loop (a - x2) (b - y2) dx dy sxr syr (a - x) (b - y) err =
       Some (map (\<lambda>p. (a - fst p, b - snd p)) ps)"
proof (rule DrawLineColor_plots_loop.raw_induct
    [where P = "\<lambda>x2 y2 dx dy sx sy x y err ps.
       (dx \<noteq> 0 \<longrightarrow> sxr = - sx) \<and> (dy \<noteq> 0 \<longrightarrow> syr = - sy) \<and>
       (dx = 0 \<longrightarrow> 2 * err \<le> - dy) \<and> (dy = 0 \<longrightarrow> dx \<le> 2 * err) \<longrightarrow>
       DrawLineColor_plots_loop (a - x2) (b - y2) dx dy sxr syr (a - x) (b - y) err =
         Some (map (\<lambda>p. (a - fst p, b - snd p)) ps)",
      OF _ assms], goal_cases)
  case (1 f x2 y2 dx dy sx sy x y err ps)
  note IH = 1(1) and body = 1(2)[unfolded line_body_eq]
  show ?case
  proof (intro impI)
    assume pre: "(dx \<noteq> 0 \<longrightarrow> sxr = - sx) \<and> (dy \<noteq> 0 \<longrightarrow> syr = - sy) \<and>
       (dx = 0 \<longrightarrow> 2 * err \<le> - dy) \<and> (dy = 0 \<longrightarrow> dx \<le> 2 * err)"
    show "DrawLineColor_plots_loop (a - x2) (b - y2) dx dy sxr syr (a - x) (b - y) err =
         Some (map (\<lambda>p. (a - fst p, b - snd p)) ps)"
    proof (cases "x = x2 \<and> y = y2")
      case True
      with body have "ps = [(x, y)]" by auto
      with True show ?thesis by (subst plots_loop_step) simp
    next
      case False
      let ?x = "if - dy < 2 * err then x + word_of_int sx else x"
      let ?y = "if 2 * err < dx then y + word_of_int sy else y"
      let ?err = "(if - dy < 2 * err then err - dy else err) + (if 2 * err < dx then dx else 0)"
      from False body have ok: "line_ok dx dy err"
        by (simp split: if_splits)
      from False ok body have "(f x2 y2 dx dy sx sy ?x ?y ?err \<bind> (\<lambda>ps. Some ((x, y) # ps))) = Some ps"
        by (simp only: if_False if_True)
      then obtain ps' where r: "f x2 y2 dx dy sx sy ?x ?y ?err = Some ps'"
        and ps: "ps = (x, y) # ps'"
        by (cases "f x2 y2 dx dy sx sy ?x ?y ?err") auto
      have pre': "(dx \<noteq> 0 \<longrightarrow> sxr = - sx) \<and> (dy \<noteq> 0 \<longrightarrow> syr = - sy) \<and>
         (dx = 0 \<longrightarrow> 2 * ?err \<le> - dy) \<and> (dy = 0 \<longrightarrow> dx \<le> 2 * ?err)"
        using pre by auto
      from IH[OF r] pre'
      have rec: "DrawLineColor_plots_loop (a - x2) (b - y2) dx dy sxr syr (a - ?x) (b - ?y) ?err =
           Some (map (\<lambda>p. (a - fst p, b - snd p)) ps')"
        by blast
      have ex: "(if - dy < 2 * err then a - x + word_of_int sxr else a - x) = a - ?x"
      proof (cases "- dy < 2 * err")
        case True
        with pre have "dx \<noteq> 0" by auto
        with pre have "sxr = - sx" by blast
        with True show ?thesis by simp
      next
        case False
        then show ?thesis by simp
      qed
      have ey: "(if 2 * err < dx then b - y + word_of_int syr else b - y) = b - ?y"
      proof (cases "2 * err < dx")
        case True
        with pre have "dy \<noteq> 0" by auto
        with pre have "syr = - sy" by blast
        with True show ?thesis by simp
      next
        case False
        then show ?thesis by simp
      qed
      have ng: "\<not> (a - x = a - x2 \<and> b - y = b - y2)"
        using False by (simp add: word_diff_left_eq)
      have "DrawLineColor_plots_loop (a - x2) (b - y2) dx dy sxr syr (a - x) (b - y) err =
          do { ps \<leftarrow> DrawLineColor_plots_loop (a - x2) (b - y2) dx dy sxr syr (a - ?x) (b - ?y) ?err;
               Some ((a - x, b - y) # ps) }"
        using ng ok by (subst plots_loop_step) (simp only: ex ey if_False if_True)
      then show ?thesis by (simp add: rec ps)
    qed
  qed
qed

lemma sint_diff_zero: "\<bar>sint x2 - sint x1\<bar> = 0 \<longleftrightarrow> x1 = x2" for x1 x2 :: uint_fast8_t
proof
  assume "\<bar>sint x2 - sint x1\<bar> = 0"
  then have "sint x1 = sint x2" by simp
  then show "x1 = x2" by (rule signed_word_eqI)
qed simp

lemma DrawLineColor_plots_reflect:
  assumes "DrawLineColor_plots x1 y1 x2 y2 = Some ps"
  shows "DrawLineColor_plots x2 y2 x1 y1 = Some (map (\<lambda>p. (x1 + x2 - fst p, y1 + y2 - snd p)) ps)"
proof -
  let ?dx = "\<bar>sint x2 - sint x1\<bar>" and ?dy = "\<bar>sint y2 - sint y1\<bar>"
  let ?sx = "if x1 < x2 then 1 else - 1 :: int" and ?sy = "if y1 < y2 then 1 else - 1 :: int"
  let ?sxr = "if x2 < x1 then 1 else - 1 :: int" and ?syr = "if y2 < y1 then 1 else - 1 :: int"
  from assms have ok: "?dx \<le> 2147483647 \<and> ?dy \<le> 2147483647"
    by (simp add: DrawLineColor_plots_eq split: if_splits)
  with assms have f: "DrawLineColor_plots_loop x2 y2 ?dx ?dy ?sx ?sy x1 y1 (?dx - ?dy) = Some ps"
    by (simp add: DrawLineColor_plots_eq)
  have sx: "?dx \<noteq> 0 \<longrightarrow> ?sxr = - ?sx" by (auto simp add: sint_diff_zero)
  have sy: "?dy \<noteq> 0 \<longrightarrow> ?syr = - ?sy" by (auto simp add: sint_diff_zero)
  have e1: "?dx = 0 \<longrightarrow> 2 * (?dx - ?dy) \<le> - ?dy" by simp
  have e2: "?dy = 0 \<longrightarrow> ?dx \<le> 2 * (?dx - ?dy)" by simp
  from plots_loop_reflect_all[OF f, of ?sxr ?syr "x1 + x2" "y1 + y2"] sx sy e1 e2
  have "DrawLineColor_plots_loop (x1 + x2 - x2) (y1 + y2 - y2) ?dx ?dy ?sxr ?syr
          (x1 + x2 - x1) (y1 + y2 - y1) (?dx - ?dy) =
        Some (map (\<lambda>p. (x1 + x2 - fst p, y1 + y2 - snd p)) ps)"
    by blast
  then have "DrawLineColor_plots_loop x1 y1 ?dx ?dy ?sxr ?syr x2 y2 (?dx - ?dy) =
        Some (map (\<lambda>p. (x1 + x2 - fst p, y1 + y2 - snd p)) ps)"
    by simp
  moreover have "\<bar>sint x1 - sint x2\<bar> = ?dx" "\<bar>sint y1 - sint y2\<bar> = ?dy"
    by (simp_all add: abs_minus_commute)
  ultimately show ?thesis using ok
    by (simp add: DrawLineColor_plots_eq[of x2 y2 x1 y1])
qed

lemma DrawLineColor_plots_swap:
  "DrawLineColor_plots x2 y2 x1 y1 =
     map_option (map (\<lambda>p. (x1 + x2 - fst p, y1 + y2 - snd p))) (DrawLineColor_plots x1 y1 x2 y2)"
proof (cases "DrawLineColor_plots x1 y1 x2 y2")
  case (Some ps)
  with DrawLineColor_plots_reflect[OF Some] show ?thesis by simp
next
  case None
  have "DrawLineColor_plots x2 y2 x1 y1 = None"
  proof (cases "DrawLineColor_plots x2 y2 x1 y1")
    case (Some qs)
    from DrawLineColor_plots_reflect[OF Some] None show ?thesis by simp
  qed simp
  with None show ?thesis by simp
qed

lemma DrawLineColor_as_paint:
  assumes "buffer_sized w h s"
  shows "DrawLineColor w h x1 y1 x2 y2 c s =
     map_option (\<lambda>ps. s\<lparr>buffer := paint w h c ps (buffer s)\<rparr>) (DrawLineColor_plots x1 y1 x2 y2)"
proof (cases "DrawLineColor_plots x1 y1 x2 y2")
  case (Some ps)
  with DrawLineColor_paint[OF Some assms] show ?thesis by simp
next
  case None
  have "DrawLineColor w h x1 y1 x2 y2 c s = None"
  proof (cases "DrawLineColor w h x1 y1 x2 y2 c s")
    case (Some s')
    from DrawLineColor_Some_plots[OF Some] None show ?thesis by simp
  qed simp
  with None show ?thesis by simp
qed

subsection \<open>An orbit that misses the end point\<close>



subsection \<open>Two small lines\<close>

lemma DrawLineColor_plots_0_0_4_2: "DrawLineColor_plots 0 0 4 2 = Some [(0, 0), (1, 0), (2, 1), (3, 1), (4, 2)]"
    by (simp add: DrawLineColor_plots_def DrawLineColor_plots_loop.simps c_int_def)

lemma DrawLineColor_plots_4_2_0_0: "DrawLineColor_plots 4 2 0 0 = Some [(4, 2), (3, 2), (2, 1), (1, 1), (0, 0)]"
    by (simp add: DrawLineColor_plots_def DrawLineColor_plots_loop.simps c_int_def)

lemma DrawLineColor_degenerate: "DrawLineColor w h x y x y c s = DrawPixelColor w h x y c s"
  by (simp add: DrawLineColor_eq loop_step)

lemma DrawLineColor_plots_degenerate: "DrawLineColor_plots x y x y = Some [(x, y)]"
  by (simp add: DrawLineColor_plots_eq plots_loop_step)

subsection \<open>Termination\<close>




subsection \<open>The reference trace\<close>

text \<open>
  Claim C2. For every colour, \<^verbatim>\<open>DrawLineColor(0, 0, 4, 2, color)\<close> plots exactly
  \<open>(0,0), (1,0), (2,1), (3,1), (4,2)\<close>, in this order; on every framebuffer that has
  these pixels (at least 5 wide and 3 high) it returns, the five pixels then hold the
  colour and every other pixel is as before.
\<close>

theorem DrawLineColor_golden_trace:
  "DrawLineColor_plots 0 0 4 2 = Some [(0, 0), (1, 0), (2, 1), (3, 1), (4, 2)] \<and>
   (buffer_sized w h s \<and> 5 \<le> w \<and> 3 \<le> h \<longrightarrow>
      (\<exists>buf. DrawLineColor w h 0 0 4 2 c s = Some (s\<lparr>buffer := buf\<rparr>) \<and>
         length buf = w * h * 2 \<and>
         (\<forall>p. p < w * h \<longrightarrow>
            read16 buf (p * 2) =
              (if p \<in> {0, 1, w + 2, w + 3, 2 * w + 4} then c else read16 (buffer s) (p * 2)))))"
proof (intro conjI impI)
  show tr: "DrawLineColor_plots 0 0 4 2 = Some [(0, 0), (1, 0), (2, 1), (3, 1), (4, 2)]"
    by (rule DrawLineColor_plots_0_0_4_2)
  assume a: "buffer_sized w h s \<and> 5 \<le> w \<and> 3 \<le> h"
  let ?buf = "paint w h c [(0, 0), (1, 0), (2, 1), (3, 1), (4, 2)] (buffer s)"
  have 1: "DrawLineColor w h 0 0 4 2 c s = Some (s\<lparr>buffer := ?buf\<rparr>)"
    using a by (simp only: DrawLineColor_paint[OF tr])
  have 2: "length ?buf = w * h * 2" using a by (simp add: buffer_sized_def)
  have 3: "read16 ?buf (p * 2) =
              (if p \<in> {0, 1, w + 2, w + 3, 2 * w + 4} then c else read16 (buffer s) (p * 2))"
    if "p < w * h" for p
  proof -
    from that a have "p * 2 + 1 < length (buffer s)" by (simp add: buffer_sized_def)
    then show ?thesis using a
      by (simp only: read16_paint) auto
  qed
  from 1 2 3 show "\<exists>buf. DrawLineColor w h 0 0 4 2 c s = Some (s\<lparr>buffer := buf\<rparr>) \<and>
         length buf = w * h * 2 \<and>
         (\<forall>p. p < w * h \<longrightarrow>
            read16 buf (p * 2) =
              (if p \<in> {0, 1, w + 2, w + 3, 2 * w + 4} then c else read16 (buffer s) (p * 2)))"
    by blast
qed

theorem DrawLineColor_golden_trace_witness:
  "buffer_sized 128 160 (fresh_driver 128 160) \<and> (5::nat) \<le> 128 \<and> (3::nat) \<le> 160 \<and>
   (\<exists>buf. DrawLineColor 128 160 0 0 4 2 0xF800 (fresh_driver 128 160) =
             Some ((fresh_driver 128 160)\<lparr>buffer := buf\<rparr>) \<and>
      length buf = 40960 \<and> read16 buf (130 * 2) = 0xF800)"
proof -
  have w: "buffer_sized 128 160 (fresh_driver 128 160)" by (simp add: buffer_sized_def fresh_driver_def)
  with DrawLineColor_golden_trace [of 128 160 "fresh_driver 128 160" "0xF800"]
  obtain buf where
    r: "DrawLineColor 128 160 0 0 4 2 0xF800 (fresh_driver 128 160) =
          Some ((fresh_driver 128 160)\<lparr>buffer := buf\<rparr>)"
    and l: "length buf = 128 * 160 * 2"
    and b: "\<forall>p. p < 128 * 160 \<longrightarrow>
            read16 buf (p * 2) =
              (if p \<in> {0, 1, 128 + 2, 128 + 3, 2 * 128 + 4} then 0xF800
               else read16 (buffer (fresh_driver 128 160)) (p * 2))"
    by auto
  from b have "130 < (128::nat) * 160 \<longrightarrow>
            read16 buf (130 * 2) =
              (if (130::nat) \<in> {0, 1, 128 + 2, 128 + 3, 2 * 128 + 4} then 0xF800
               else read16 (buffer (fresh_driver 128 160)) (130 * 2))"
    by (rule spec)
  then have "read16 buf (130 * 2) = 0xF800" by simp
  with r l have "\<exists>buf. DrawLineColor 128 160 0 0 4 2 0xF800 (fresh_driver 128 160) =
             Some ((fresh_driver 128 160)\<lparr>buffer := buf\<rparr>) \<and>
      length buf = 40960 \<and> read16 buf (130 * 2) = 0xF800"
    by (intro exI[of _ buf]) simp
  with w show ?thesis by simp
qed

subsection \<open>A line of one point\<close>

text \<open>
  Claim C9, as the code has it. For every coordinate and colour,
  \<^verbatim>\<open>DrawLineColor(x, y, x, y, c)\<close> makes exactly one plot, at \<open>(x, y)\<close>, and is the call
  \<^verbatim>\<open>DrawPixelColor(x, y, c)\<close>. If \<open>(x, y)\<close> lies inside the framebuffer, exactly that
  pixel is painted and every other byte is as before; if it lies outside
  (\<open>x \<ge> width\<close> or \<open>y \<ge> height\<close>) the plot is clipped and the driver is unchanged.
\<close>

theorem DrawLineColor_single_point:
  "DrawLineColor_plots x y x y = Some [(x, y)] \<and>
   DrawLineColor w h x y x y c s = DrawPixelColor w h x y c s \<and>
   (buffer_sized w h s \<and> unat x < w \<and> unat y < h \<longrightarrow>
      (\<exists>buf. DrawLineColor w h x y x y c s = Some (s\<lparr>buffer := buf\<rparr>) \<and>
         length buf = w * h * 2 \<and>
         read16 buf ((unat y * w + unat x) * 2) = c \<and>
         (\<forall>i. i \<noteq> (unat y * w + unat x) * 2 \<and> i \<noteq> (unat y * w + unat x) * 2 + 1
              \<longrightarrow> buf ! i = buffer s ! i))) \<and>
   (w \<le> unat x \<or> h \<le> unat y \<longrightarrow> DrawLineColor w h x y x y c s = Some s)"
  using DrawPixelColor_in_bounds[of w h s x y c] DrawPixelColor_clipped[of w x h y c s]
  by (simp only: DrawLineColor_degenerate DrawLineColor_plots_degenerate) blast

theorem DrawLineColor_single_point_witness:
  "buffer_sized 128 160 (fresh_driver 128 160) \<and> unat (5 :: uint_fast8_t) < 128 \<and> unat (7 :: uint_fast8_t) < 160 \<and>
   (\<exists>buf. DrawLineColor 128 160 5 7 5 7 0xF800 (fresh_driver 128 160) =
             Some ((fresh_driver 128 160)\<lparr>buffer := buf\<rparr>) \<and>
      read16 buf ((7 * 128 + 5) * 2) = 0xF800) \<and>
   (128::nat) \<le> unat (200 :: uint_fast8_t) \<and>
   DrawLineColor 128 160 200 7 200 7 0xF800 (fresh_driver 128 160) = Some (fresh_driver 128 160)"
proof -
  have w: "buffer_sized 128 160 (fresh_driver 128 160)" by (simp add: buffer_sized_def fresh_driver_def)
  have u: "unat (5 :: uint_fast8_t) < 128" "unat (7 :: uint_fast8_t) < 160"
    "(128::nat) \<le> unat (200 :: uint_fast8_t)"
    by simp_all
  from DrawLineColor_single_point [of 5 7 128 160 "0xF800" "fresh_driver 128 160"] w u
  obtain buf where
    r: "DrawLineColor 128 160 5 7 5 7 0xF800 (fresh_driver 128 160) =
          Some ((fresh_driver 128 160)\<lparr>buffer := buf\<rparr>)"
    and b: "read16 buf ((unat (7 :: uint_fast8_t) * 128 + unat (5 :: uint_fast8_t)) * 2) = 0xF800"
    by blast
  from b have "read16 buf ((7 * 128 + 5) * 2) = 0xF800" by simp
  with r have i: "\<exists>buf. DrawLineColor 128 160 5 7 5 7 0xF800 (fresh_driver 128 160) =
             Some ((fresh_driver 128 160)\<lparr>buffer := buf\<rparr>) \<and>
      read16 buf ((7 * 128 + 5) * 2) = 0xF800"
    by blast
  from DrawLineColor_single_point [of 200 7 128 160 "0xF800" "fresh_driver 128 160"] u
  have o: "DrawLineColor 128 160 200 7 200 7 0xF800 (fresh_driver 128 160) = Some (fresh_driver 128 160)"
    by blast
  from w u i o show ?thesis by blast
qed

text \<open>
  Claim C9 as stated fails for a coordinate outside the framebuffer: on the 128 by 160
  panel, the line from \<open>(200, 200)\<close> to itself in white leaves the zeroed framebuffer,
  and the whole driver, as it was; no pixel is painted.
\<close>

theorem DrawLineColor_single_point_clipped:
  "DrawLineColor 128 160 200 200 200 200 0xFFFF (fresh_driver 128 160) = Some (fresh_driver 128 160)"
  by (simp add: DrawLineColor_degenerate DrawPixelColor_def)

subsection \<open>Swapping the end points\<close>

text \<open>
  Claim C1, as the code has it. For every pair of end points, the plots of
  \<^verbatim>\<open>DrawLineColor(x2, y2, x1, y1, c)\<close> are, one by one and in order, the point reflections
  \<open>(x1 + x2 - x, y1 + y2 - y)\<close>, computed in the coordinate type, of the plots \<open>(x, y)\<close>
  of \<^verbatim>\<open>DrawLineColor(x1, y1, x2, y2, c)\<close>, and the one call returns exactly when the
  other does. On a driver whose framebuffer has its \<open>width * height * 2\<close> bytes, what each call
  does is the painting of its own sequence. For end points whose coordinates are below
  \<open>2^31\<close> and at most 715827882 apart on each axis both calls return, and the plots lead
  from the first end point to the second.
\<close>

theorem DrawLineColor_reversed_is_reflection:
  "DrawLineColor_plots x2 y2 x1 y1 =
     map_option (map (\<lambda>p. (x1 + x2 - fst p, y1 + y2 - snd p))) (DrawLineColor_plots x1 y1 x2 y2) \<and>
   (buffer_sized w h s \<longrightarrow>
      DrawLineColor w h x1 y1 x2 y2 c s =
        map_option (\<lambda>ps. s\<lparr>buffer := paint w h c ps (buffer s)\<rparr>) (DrawLineColor_plots x1 y1 x2 y2) \<and>
      DrawLineColor w h x2 y2 x1 y1 c s =
        map_option (\<lambda>ps. s\<lparr>buffer := paint w h c (map (\<lambda>p. (x1 + x2 - fst p, y1 + y2 - snd p)) ps) (buffer s)\<rparr>)
          (DrawLineColor_plots x1 y1 x2 y2)) \<and>
   (line_domain x1 y1 x2 y2 \<longrightarrow>
      (\<exists>ps. DrawLineColor_plots x1 y1 x2 y2 = Some ps \<and>
         ps \<noteq> [] \<and> hd ps = (x1, y1) \<and> last ps = (x2, y2)))"
proof (intro conjI impI)
  show "DrawLineColor_plots x2 y2 x1 y1 =
     map_option (map (\<lambda>p. (x1 + x2 - fst p, y1 + y2 - snd p))) (DrawLineColor_plots x1 y1 x2 y2)"
    by (rule DrawLineColor_plots_swap)
next
  assume "buffer_sized w h s"
  then show "DrawLineColor w h x1 y1 x2 y2 c s =
        map_option (\<lambda>ps. s\<lparr>buffer := paint w h c ps (buffer s)\<rparr>) (DrawLineColor_plots x1 y1 x2 y2)"
    by (rule DrawLineColor_as_paint)
next
  assume "buffer_sized w h s"
  then show "DrawLineColor w h x2 y2 x1 y1 c s =
        map_option (\<lambda>ps. s\<lparr>buffer := paint w h c (map (\<lambda>p. (x1 + x2 - fst p, y1 + y2 - snd p)) ps) (buffer s)\<rparr>)
          (DrawLineColor_plots x1 y1 x2 y2)"
    by (simp add: DrawLineColor_as_paint DrawLineColor_plots_swap[of x2 y2 x1 y1] option.map_comp comp_def)
next
  assume "line_domain x1 y1 x2 y2"
  from DrawLineColor_plots_total[OF this] obtain ps where
    p: "DrawLineColor_plots x1 y1 x2 y2 = Some ps" by blast
  with DrawLineColor_plots_ends[OF p]
  show "\<exists>ps. DrawLineColor_plots x1 y1 x2 y2 = Some ps \<and>
         ps \<noteq> [] \<and> hd ps = (x1, y1) \<and> last ps = (x2, y2)"
    by blast
qed

theorem DrawLineColor_reversed_is_reflection_witness:
  "buffer_sized 128 160 (fresh_driver 128 160) \<and> line_domain 0 0 4 2 \<and>
   (\<exists>ps. DrawLineColor_plots 0 0 4 2 = Some ps \<and> hd ps = (0, 0) \<and> last ps = (4, 2) \<and>
      DrawLineColor_plots 4 2 0 0 = Some (map (\<lambda>p. (0 + 4 - fst p, 0 + 2 - snd p)) ps) \<and>
      DrawLineColor 128 160 4 2 0 0 0xF800 (fresh_driver 128 160) =
        Some ((fresh_driver 128 160)\<lparr>buffer :=
          paint 128 160 0xF800 (map (\<lambda>p. (0 + 4 - fst p, 0 + 2 - snd p)) ps)
            (buffer (fresh_driver 128 160))\<rparr>))"
proof -
  have w: "buffer_sized 128 160 (fresh_driver 128 160)" by (simp add: buffer_sized_def fresh_driver_def)
  have d: "line_domain 0 0 4 2" by (simp add: line_domain_def)
  note t = DrawLineColor_reversed_is_reflection [of 4 2 0 0 128 160 "fresh_driver 128 160" "0xF800"]
  from t d obtain ps where
    p: "DrawLineColor_plots 0 0 4 2 = Some ps" and e: "hd ps = (0, 0)" "last ps = (4, 2)"
    by blast
  from t p have q: "DrawLineColor_plots 4 2 0 0 = Some (map (\<lambda>p. (0 + 4 - fst p, 0 + 2 - snd p)) ps)"
    by simp
  from t w p have r: "DrawLineColor 128 160 4 2 0 0 0xF800 (fresh_driver 128 160) =
        Some ((fresh_driver 128 160)\<lparr>buffer :=
          paint 128 160 0xF800 (map (\<lambda>p. (0 + 4 - fst p, 0 + 2 - snd p)) ps)
            (buffer (fresh_driver 128 160))\<rparr>)"
    by simp
  from w d p e q r show ?thesis by blast
qed

text \<open>
  Claim C1 as stated fails: on the zeroed 128 by 160 framebuffer the white line from
  \<open>(0, 0)\<close> to \<open>(4, 2)\<close> paints the pixel \<open>(1, 0)\<close>, at byte offset 2, and the line from
  \<open>(4, 2)\<close> to \<open>(0, 0)\<close> leaves it black; the two calls return different drivers.
\<close>

theorem DrawLineColor_not_symmetric:
  "read16 (buffer (the (DrawLineColor 128 160 0 0 4 2 0xFFFF (fresh_driver 128 160)))) 2 = 0xFFFF \<and>
   read16 (buffer (the (DrawLineColor 128 160 4 2 0 0 0xFFFF (fresh_driver 128 160)))) 2 = 0 \<and>
   DrawLineColor 128 160 0 0 4 2 0xFFFF (fresh_driver 128 160) \<noteq>
   DrawLineColor 128 160 4 2 0 0 0xFFFF (fresh_driver 128 160)"
proof -
  let ?s = "fresh_driver 128 160"
  have w: "buffer_sized 128 160 ?s" by (simp add: buffer_sized_def fresh_driver_def)
  note f = DrawLineColor_plots_0_0_4_2 and r = DrawLineColor_plots_4_2_0_0
  have l: "1 * 2 + 1 < length (buffer ?s)" by (simp add: fresh_driver_def)
  have z: "read16 (buffer ?s) (1 * 2) = 0" by (simp add: fresh_driver_def read16_def)
  have bf: "buffer (the (DrawLineColor 128 160 0 0 4 2 0xFFFF ?s)) =
      paint 128 160 0xFFFF [(0, 0), (1, 0), (2, 1), (3, 1), (4, 2)] (buffer ?s)"
    by (simp add: DrawLineColor_paint[OF f w] del: paint_Cons)
  have br: "buffer (the (DrawLineColor 128 160 4 2 0 0 0xFFFF ?s)) =
      paint 128 160 0xFFFF [(4, 2), (3, 2), (2, 1), (1, 1), (0, 0)] (buffer ?s)"
    by (simp add: DrawLineColor_paint[OF r w] del: paint_Cons)
  have 1: "read16 (buffer (the (DrawLineColor 128 160 0 0 4 2 0xFFFF ?s))) (1 * 2) = 0xFFFF"
    unfolding bf read16_paint[OF l] by simp
  have 2: "read16 (buffer (the (DrawLineColor 128 160 4 2 0 0 0xFFFF ?s))) (1 * 2) = 0"
    unfolding br read16_paint[OF l] using z by simp
  from 1 2 have "DrawLineColor 128 160 0 0 4 2 0xFFFF ?s \<noteq> DrawLineColor 128 160 4 2 0 0 0xFFFF ?s"
    by auto
  with 1 2 show ?thesis by simp
qed

section \<open>Rectangle outlines\<close>

lemma unat_succ_less: "i < m \<Longrightarrow> unat (i + 1) = unat i + 1" for i m :: uint_fast8_t
proof -
  assume a: "i < m"
  have "unat m < 4294967296" using unsigned_less[of m, where 'a = nat] by simp
  moreover from a have "unat i < unat m" by (simp add: word_less_nat_alt)
  ultimately have "unat i + unat (1 :: uint_fast8_t) < 2 ^ LENGTH(32)" by simp
  then have "unat (i + 1) = unat i + unat (1 :: uint_fast8_t)"
    by (simp only: unat_add_lem[THEN iffD1])
  then show ?thesis by simp
qed

lemma put_pixel_clipped:
  "\<not> (unat (fst q) < w \<and> unat (snd q) < h) \<Longrightarrow> put_pixel w h c q buf = buf"
  unfolding put_pixel_def by (rule if_not_P)

lemma DrawHLineColor_loop_total:
  assumes "buffer_sized w h s"
  shows "\<exists>ps. DrawHLineColor_loop w h x y len c i s = Some (s\<lparr>buffer := paint w h c ps (buffer s)\<rparr>) \<and>
           (\<forall>q \<in> set ps. unat (fst q) < w \<and> unat (snd q) < h)"
  using assms
proof (induction "unat (x + len) - unat i" arbitrary: i s rule: less_induct)
  case less
  show ?case
  proof (cases "i < x + len \<and> unat i < w")
    case False
    then have "DrawHLineColor_loop w h x y len c i s = Some (s\<lparr>buffer := paint w h c [] (buffer s)\<rparr>)"
      by (subst DrawHLineColor_loop.simps) auto
    then show ?thesis by (intro exI[of _ "[]"]) simp
  next
    case True
    let ?s = "s\<lparr>buffer := put_pixel w h c (i, y) (buffer s)\<rparr>"
    from True have i: "unat (i + 1) = unat i + 1" by (intro unat_succ_less[of i "x + len"]) simp
    from True have "unat i < unat (x + len)" by (simp add: word_less_nat_alt)
    with i have lt: "unat (x + len) - unat (i + 1) < unat (x + len) - unat i" by linarith
    have w': "buffer_sized w h ?s" using less.prems by (simp add: buffer_sized_def)
    from less.hyps[OF lt w'] obtain ps where
      ps: "DrawHLineColor_loop w h x y len c (i + 1) ?s = Some (?s\<lparr>buffer := paint w h c ps (buffer ?s)\<rparr>)"
      and inb: "\<forall>q \<in> set ps. unat (fst q) < w \<and> unat (snd q) < h"
      by blast
    have run: "DrawHLineColor_loop w h x y len c i s =
        Some (s\<lparr>buffer := paint w h c ps (put_pixel w h c (i, y) (buffer s))\<rparr>)"
      using True ps
      by (subst DrawHLineColor_loop.simps) (simp add: DrawPixelColor_put[OF less.prems])
    show ?thesis
    proof (cases "unat i < w \<and> unat y < h")
      case True
      with run inb show ?thesis by (intro exI[of _ "(i, y) # ps"]) simp
    next
      case False
      then have "put_pixel w h c (i, y) (buffer s) = buffer s" by (simp add: put_pixel_clipped)
      with run inb show ?thesis by (intro exI[of _ ps]) simp
    qed
  qed
qed

lemma DrawVLineColor_loop_total:
  assumes "buffer_sized w h s"
  shows "\<exists>ps. DrawVLineColor_loop w h x y len c j s = Some (s\<lparr>buffer := paint w h c ps (buffer s)\<rparr>) \<and>
           (\<forall>q \<in> set ps. unat (fst q) < w \<and> unat (snd q) < h)"
  using assms
proof (induction "unat (y + len) - unat j" arbitrary: j s rule: less_induct)
  case less
  show ?case
  proof (cases "j < y + len \<and> unat j < h")
    case False
    then have "DrawVLineColor_loop w h x y len c j s = Some (s\<lparr>buffer := paint w h c [] (buffer s)\<rparr>)"
      by (subst DrawVLineColor_loop.simps) auto
    then show ?thesis by (intro exI[of _ "[]"]) simp
  next
    case True
    let ?s = "s\<lparr>buffer := put_pixel w h c (x, j) (buffer s)\<rparr>"
    from True have j: "unat (j + 1) = unat j + 1" by (intro unat_succ_less[of j "y + len"]) simp
    from True have "unat j < unat (y + len)" by (simp add: word_less_nat_alt)
    with j have lt: "unat (y + len) - unat (j + 1) < unat (y + len) - unat j" by linarith
    have w': "buffer_sized w h ?s" using less.prems by (simp add: buffer_sized_def)
    from less.hyps[OF lt w'] obtain ps where
      ps: "DrawVLineColor_loop w h x y len c (j + 1) ?s = Some (?s\<lparr>buffer := paint w h c ps (buffer ?s)\<rparr>)"
      and inb: "\<forall>q \<in> set ps. unat (fst q) < w \<and> unat (snd q) < h"
      by blast
    have run: "DrawVLineColor_loop w h x y len c j s =
        Some (s\<lparr>buffer := paint w h c ps (put_pixel w h c (x, j) (buffer s))\<rparr>)"
      using True ps
      by (subst DrawVLineColor_loop.simps) (simp add: DrawPixelColor_put[OF less.prems])
    show ?thesis
    proof (cases "unat x < w \<and> unat j < h")
      case True
      with run inb show ?thesis by (intro exI[of _ "(x, j) # ps"]) simp
    next
      case False
      then have "put_pixel w h c (x, j) (buffer s) = buffer s" by (simp add: put_pixel_clipped)
      with run inb show ?thesis by (intro exI[of _ ps]) simp
    qed
  qed
qed

lemma reversed_span_empty: "b < a \<Longrightarrow> \<not> a < a + (b - a + 1)" for a b :: uint_fast8_t
proof -
  assume "b < a"
  then have "b + 1 \<le> a" by (rule inc_le)
  then show ?thesis by (simp add: not_less)
qed

lemma DrawHLineColor_reversed:
  "x2 < x1 \<Longrightarrow> DrawHLineColor w h x1 y (x2 - x1 + 1) c s = Some s"
  unfolding DrawHLineColor_def
  by (subst DrawHLineColor_loop.simps) (simp only: reversed_span_empty simp_thms if_False)

lemma DrawVLineColor_reversed:
  "y2 < y1 \<Longrightarrow> DrawVLineColor w h x y1 (y2 - y1 + 1) c s = Some s"
  unfolding DrawVLineColor_def
  by (subst DrawVLineColor_loop.simps) (simp only: reversed_span_empty simp_thms if_False)

text \<open>
  Claim C5. On a driver whose framebuffer has its \<open>width * height * 2\<close> bytes,
  \<^verbatim>\<open>DrawRectColor\<close> returns for every four coordinates, reversed ones (\<open>x1 > x2\<close> or
  \<open>y1 > y2\<close>) included: no loop runs forever and no access leaves the array. What it has
  done to the framebuffer is a sequence of pixel writes, each at a coordinate inside
  \<open>[0, width) \<times> [0, height)\<close>; the framebuffer keeps its size and no other member
  changes. With both spans reversed (\<open>x2 < x1\<close> and \<open>y2 < y1\<close>) the four loops are empty
  and the driver is returned as it was.
\<close>

theorem DrawRectColor_safe:
  "(buffer_sized w h s \<longrightarrow>
     (\<exists>ps. DrawRectColor w h x1 y1 x2 y2 c s = Some (s\<lparr>buffer := paint w h c ps (buffer s)\<rparr>) \<and>
        length (paint w h c ps (buffer s)) = w * h * 2 \<and>
        (\<forall>q \<in> set ps. unat (fst q) < w \<and> unat (snd q) < h))) \<and>
   (x2 < x1 \<and> y2 < y1 \<longrightarrow> DrawRectColor w h x1 y1 x2 y2 c s = Some s)"
proof (intro conjI impI)
  assume w0: "buffer_sized w h s"
  let ?w = "x2 - x1 + 1"
  let ?h = "y2 - y1 + 1"
  from DrawHLineColor_loop_total[OF w0, of x1 y1 ?w c x1] obtain p1 where
    1: "DrawHLineColor w h x1 y1 ?w c s = Some (s\<lparr>buffer := paint w h c p1 (buffer s)\<rparr>)"
    and i1: "\<forall>q \<in> set p1. unat (fst q) < w \<and> unat (snd q) < h"
    unfolding DrawHLineColor_def by blast
  let ?s1 = "s\<lparr>buffer := paint w h c p1 (buffer s)\<rparr>"
  have w1: "buffer_sized w h ?s1" using w0 by (simp add: buffer_sized_def)
  from DrawHLineColor_loop_total[OF w1, of x1 y2 ?w c x1] obtain p2 where
    2: "DrawHLineColor w h x1 y2 ?w c ?s1 = Some (s\<lparr>buffer := paint w h c (p1 @ p2) (buffer s)\<rparr>)"
    and i2: "\<forall>q \<in> set p2. unat (fst q) < w \<and> unat (snd q) < h"
    unfolding DrawHLineColor_def by auto
  let ?s2 = "s\<lparr>buffer := paint w h c (p1 @ p2) (buffer s)\<rparr>"
  have w2: "buffer_sized w h ?s2" using w0 by (simp add: buffer_sized_def)
  from DrawVLineColor_loop_total[OF w2, of x1 y1 ?h c y1] obtain p3 where
    3: "DrawVLineColor w h x1 y1 ?h c ?s2 = Some (s\<lparr>buffer := paint w h c (p1 @ p2 @ p3) (buffer s)\<rparr>)"
    and i3: "\<forall>q \<in> set p3. unat (fst q) < w \<and> unat (snd q) < h"
    unfolding DrawVLineColor_def by auto
  let ?s3 = "s\<lparr>buffer := paint w h c (p1 @ p2 @ p3) (buffer s)\<rparr>"
  have w3: "buffer_sized w h ?s3" using w0 by (simp add: buffer_sized_def)
  from DrawVLineColor_loop_total[OF w3, of x2 y1 ?h c y1] obtain p4 where
    4: "DrawVLineColor w h x2 y1 ?h c ?s3 = Some (s\<lparr>buffer := paint w h c (p1 @ p2 @ p3 @ p4) (buffer s)\<rparr>)"
    and i4: "\<forall>q \<in> set p4. unat (fst q) < w \<and> unat (snd q) < h"
    unfolding DrawVLineColor_def by auto
  have "DrawRectColor w h x1 y1 x2 y2 c s =
      Some (s\<lparr>buffer := paint w h c (p1 @ p2 @ p3 @ p4) (buffer s)\<rparr>)"
    unfolding DrawRectColor_def Let_def by (simp only: 1 2 3 4 bind.bind_lunit)
  moreover have "length (paint w h c (p1 @ p2 @ p3 @ p4) (buffer s)) = w * h * 2"
    using w0 by (simp add: buffer_sized_def)
  moreover have "\<forall>q \<in> set (p1 @ p2 @ p3 @ p4). unat (fst q) < w \<and> unat (snd q) < h"
    using i1 i2 i3 i4 by auto
  ultimately show "\<exists>ps. DrawRectColor w h x1 y1 x2 y2 c s = Some (s\<lparr>buffer := paint w h c ps (buffer s)\<rparr>) \<and>
        length (paint w h c ps (buffer s)) = w * h * 2 \<and>
        (\<forall>q \<in> set ps. unat (fst q) < w \<and> unat (snd q) < h)"
    by blast
next
  assume r: "x2 < x1 \<and> y2 < y1"
  then have x: "x2 < x1" and y: "y2 < y1" by simp_all
  show "DrawRectColor w h x1 y1 x2 y2 c s = Some s"
    unfolding DrawRectColor_def Let_def
    by (simp only: DrawHLineColor_reversed[OF x] DrawVLineColor_reversed[OF y] bind.bind_lunit)
qed

theorem DrawRectColor_safe_witness:
  "buffer_sized 128 160 (fresh_driver 128 160) \<and>
   (20 :: uint_fast8_t) > 10 \<and>
   (\<exists>ps. DrawRectColor 128 160 20 20 10 10 0xF800 (fresh_driver 128 160) =
            Some ((fresh_driver 128 160)\<lparr>buffer := paint 128 160 0xF800 ps (buffer (fresh_driver 128 160))\<rparr>) \<and>
      (\<forall>q \<in> set ps. unat (fst q) < 128 \<and> unat (snd q) < 160)) \<and>
   DrawRectColor 128 160 20 20 10 10 0xF800 (fresh_driver 128 160) = Some (fresh_driver 128 160)"
proof -
  have w: "buffer_sized 128 160 (fresh_driver 128 160)" by (simp add: buffer_sized_def fresh_driver_def)
  have r: "(10 :: uint_fast8_t) < 20" by simp
  from DrawRectColor_safe [of 128 160 "fresh_driver 128 160" 20 20 10 10 "0xF800"] w r
  have 1: "\<exists>ps. DrawRectColor 128 160 20 20 10 10 0xF800 (fresh_driver 128 160) =
            Some ((fresh_driver 128 160)\<lparr>buffer := paint 128 160 0xF800 ps (buffer (fresh_driver 128 160))\<rparr>) \<and>
      (\<forall>q \<in> set ps. unat (fst q) < 128 \<and> unat (snd q) < 160)"
    and 2: "DrawRectColor 128 160 20 20 10 10 0xF800 (fresh_driver 128 160) = Some (fresh_driver 128 160)"
    by blast+
  from w r 1 2 show ?thesis by blast
qed

end
